theory Spec2Isabelle
  imports Main
begin

section \<open>Python values and strings\<close>

text \<open>
  A Python \<open>str\<close> is a sequence of Unicode code points, so a string is a list of
  code points here. \<open>lit\<close> turns an ASCII literal into such a string.
\<close>

type_synonym pystr = "nat list"

definition lit :: "string \<Rightarrow> pystr" where
  "lit s = map of_char s"

text \<open>
  The values a worksheet cell holds. \<open>None\<close>, \<open>bool\<close>, \<open>int\<close> and \<open>str\<close> are
  modelled exactly. Every other object a cell may hold (\<open>float\<close>, \<open>datetime\<close>,
  \<open>timedelta\<close>, ...) is \<open>PObj b s\<close>: the object is given by the only two things the
  scripts ask of a code cell, its truth value \<open>bool(v) = b\<close> and its text \<open>str(v) = s\<close>.
  The float \<open>0.0\<close> is \<open>PObj False (lit ''0.0'')\<close>.
\<close>

datatype pyval = PNone | PBool bool | PInt int | PStr pystr | PObj bool pystr

fun py_truthy :: "pyval \<Rightarrow> bool" where
  "py_truthy PNone = False"
| "py_truthy (PBool b) = b"
| "py_truthy (PInt i) = (i \<noteq> 0)"
| "py_truthy (PStr s) = (s \<noteq> [])"
| "py_truthy (PObj b s) = b"

fun digitos :: "nat \<Rightarrow> pystr" where
  "digitos n = (if n < 10 then [48 + n] else digitos (n div 10) @ [48 + n mod 10])"

declare digitos.simps [simp del]

definition str_int :: "int \<Rightarrow> pystr" where
  "str_int i = (if i < 0 then 45 # digitos (nat (- i)) else digitos (nat i))"

fun py_str :: "pyval \<Rightarrow> pystr" where
  "py_str PNone = lit ''None''"
| "py_str (PBool b) = (if b then lit ''True'' else lit ''False'')"
| "py_str (PInt i) = str_int i"
| "py_str (PStr s) = s"
| "py_str (PObj b s) = s"

text \<open>
  \<open>str.strip()\<close> without an argument removes leading and trailing whitespace, that is the
  code points for which \<open>str.isspace\<close> holds.
\<close>

definition is_space :: "nat \<Rightarrow> bool" where
  "is_space c \<longleftrightarrow>
     (9 \<le> c \<and> c \<le> 13) \<or> (28 \<le> c \<and> c \<le> 32) \<or> c = 133 \<or> c = 160 \<or> c = 5760 \<or>
     (8192 \<le> c \<and> c \<le> 8202) \<or> c = 8232 \<or> c = 8233 \<or> c = 8239 \<or> c = 8287 \<or> c = 12288"

definition py_strip :: "pystr \<Rightarrow> pystr" where
  "py_strip s = rev (dropWhile is_space (rev (dropWhile is_space s)))"

definition py_startswith :: "pystr \<Rightarrow> pystr \<Rightarrow> bool" where
  "py_startswith s p \<longleftrightarrow> take (length p) s = p"

definition py_endswith :: "pystr \<Rightarrow> pystr \<Rightarrow> bool" where
  "py_endswith s p \<longleftrightarrow> length p \<le> length s \<and> drop (length s - length p) s = p"

section \<open>The path library\<close>

text \<open>
  \<open>os.path\<close> and \<open>os.sep\<close> belong to the platform, not to the scripts: they are a
  parameter of the model. \<open>posixpath\<close> below is the POSIX instance, following
  CPython's \<open>posixpath.py\<close>; \<open>cwd\<close> is \<open>os.getcwd()\<close>.
\<close>

record os_path =
  os_sep :: pystr
  os_join :: "pystr \<Rightarrow> pystr \<Rightarrow> pystr"
  os_abspath :: "pystr \<Rightarrow> pystr"
  os_dirname :: "pystr \<Rightarrow> pystr"
  os_basename :: "pystr \<Rightarrow> pystr"

definition posix_join :: "pystr \<Rightarrow> pystr \<Rightarrow> pystr" where
  "posix_join a b =
     (if py_startswith b (lit ''/'') then b
      else if a = [] \<or> py_endswith a (lit ''/'') then a @ b
      else a @ lit ''/'' @ b)"

fun split_sep :: "nat \<Rightarrow> pystr \<Rightarrow> pystr list" where
  "split_sep c [] = [[]]"
| "split_sep c (x # xs) =
     (if x = c then [] # split_sep c xs
      else (case split_sep c xs of [] \<Rightarrow> [[x]] | w # ws \<Rightarrow> (x # w) # ws))"

fun join_sep :: "pystr \<Rightarrow> pystr list \<Rightarrow> pystr" where
  "join_sep s [] = []"
| "join_sep s [w] = w"
| "join_sep s (w # ws) = w @ s @ join_sep s ws"

definition normpath_step :: "nat \<Rightarrow> pystr list \<Rightarrow> pystr \<Rightarrow> pystr list" where
  "normpath_step initial_slashes new_comps cmp =
     (if cmp = [] \<or> cmp = lit ''.'' then new_comps
      else if cmp \<noteq> lit ''..'' \<or> (initial_slashes = 0 \<and> new_comps = []) \<or>
              (new_comps \<noteq> [] \<and> last new_comps = lit ''..'')
        then new_comps @ [cmp]
      else if new_comps \<noteq> [] then butlast new_comps
      else new_comps)"

definition posix_normpath :: "pystr \<Rightarrow> pystr" where
  "posix_normpath path =
     (if path = [] then lit ''.''
      else
        let initial_slashes =
              (if py_startswith path (lit ''/'') then
                 (if py_startswith path (lit ''//'') \<and> \<not> py_startswith path (lit ''///'')
                  then 2 else 1)
               else (0::nat));
            comps = foldl (normpath_step initial_slashes) [] (split_sep 47 path);
            p = replicate initial_slashes 47 @ join_sep (lit ''/'') comps
        in if p = [] then lit ''.'' else p)"

definition posix_abspath :: "pystr \<Rightarrow> pystr \<Rightarrow> pystr" where
  "posix_abspath cwd path =
     posix_normpath (if py_startswith path (lit ''/'') then path else posix_join cwd path)"

definition posix_basename :: "pystr \<Rightarrow> pystr" where
  "posix_basename p = rev (takeWhile (\<lambda>c. c \<noteq> 47) (rev p))"

definition posix_dirname :: "pystr \<Rightarrow> pystr" where
  "posix_dirname p =
     (let head = take (length p - length (posix_basename p)) p
      in if head \<noteq> [] \<and> (\<exists>c \<in> set head. c \<noteq> 47)
         then rev (dropWhile (\<lambda>c. c = 47) (rev head)) else head)"

definition posixpath :: "pystr \<Rightarrow> os_path" where
  "posixpath cwd =
     \<lparr> os_sep = lit ''/'', os_join = posix_join, os_abspath = posix_abspath cwd,
       os_dirname = posix_dirname, os_basename = posix_basename \<rparr>"

section \<open>Workbooks and files\<close>

text \<open>
  A row is the list of its cell values (column \<open>c\<close> is position \<open>c - 1\<close>), a sheet is
  the list of its rows (row \<open>r\<close> is position \<open>r - 1\<close>), a workbook is the ordered list of
  its named sheets.
\<close>

type_synonym fila = "pyval list"
type_synonym hoja = "fila list"
type_synonym libro = "(pystr \<times> hoja) list"

datatype py_exc = IndexError | Excepcion pystr

text \<open>
  A per-entity workbook is read through \<open>wb.active[ref].value\<close> only, which returns a
  value or raises: the workbook is that observation. A path of the file system holds no
  file, a file that \<open>openpyxl.load_workbook\<close> fails on (with the exception raised), or
  a workbook.
\<close>

type_synonym libro_origen = "pystr \<Rightarrow> py_exc + pyval"

datatype archivo = NoExiste | Ilegible py_exc | Legible libro_origen

type_synonym fsys = "pystr \<Rightarrow> archivo"

definition isfile :: "fsys \<Rightarrow> pystr \<Rightarrow> bool" where
  "isfile fs p = (case fs p of NoExiste \<Rightarrow> False | _ \<Rightarrow> True)"

text \<open>The status each script prints for a row, with the row number and the code.\<close>

datatype estado =
  Copiado | ErrorAlLeer py_exc | ArchivoNoEncontrado | FormulaAnadida | FormulaSinArchivo

type_synonym evento = "nat \<times> pystr \<times> estado"

section \<open>Configuration\<close>

definition COL_CODIGO :: nat where
  "COL_CODIGO = 4"

definition COLUMNAS_DESTINO :: "(pystr \<times> pystr) list" where
  "COLUMNAS_DESTINO =
     [(lit ''F'', lit ''N21''), (lit ''G'', lit ''N25''), (lit ''I'', lit ''N49''),
      (lit ''K'', lit ''N153''), (lit ''M'', lit ''N161'')]"

definition COLUMNAS_DESTINO_V1 :: "(pystr \<times> pystr) list" where
  "COLUMNAS_DESTINO_V1 =
     [(lit ''F'', lit ''$N$21''), (lit ''G'', lit ''$N$25''), (lit ''I'', lit ''$N$49''),
      (lit ''K'', lit ''$N$153''), (lit ''M'', lit ''$N$161'')]"

text \<open>
  \<open>openpyxl.utils.column_index_from_string\<close> on upper-case column letters (the scripts
  call it on the keys of the table above only): base 26 with \<open>A = 1\<close>.
\<close>

definition column_index_from_string :: "pystr \<Rightarrow> nat" where
  "column_index_from_string s = foldl (\<lambda>acc c. acc * 26 + (c - 64)) 0 s"

definition COL_INDICES_DESTINO :: "(nat \<times> pystr) list" where
  "COL_INDICES_DESTINO =
     map (\<lambda>(col_letra, celda). (column_index_from_string col_letra, celda)) COLUMNAS_DESTINO"

definition HOJAS_OBJETIVO :: "pystr list" where
  "HOJAS_OBJETIVO = [lit ''EDU'', lit ''HOSP'', lit ''EMPRESA'']"

definition FILA_INICIO :: nat where
  "FILA_INICIO = 6"

definition FILA_INICIO_DATOS :: nat where
  "FILA_INICIO_DATOS = 6"

definition NOMBRE_HOJA_ORIGEN_FIJO :: pystr where
  "NOMBRE_HOJA_ORIGEN_FIJO = lit ''Hoja1''"

text \<open>The drive \<open>C:\<close>, a backslash (code point 92) and \<open>presupuestos\<close>.\<close>

definition RUTA_ARCHIVOS_ORIGEN :: pystr where
  "RUTA_ARCHIVOS_ORIGEN = lit ''C:'' @ [92] @ lit ''presupuestos''"

section \<open>Reading a source cell\<close>

text \<open>
  \<open>cargar_valor\<close> (called \<open>cargar_valor_desde_origen\<close> in the streaming script, with the
  same body): \<open>try: return wb.active[celda].value  except Exception: return None\<close>.
\<close>

definition cargar_valor :: "libro_origen \<Rightarrow> pystr \<Rightarrow> pyval" where
  "cargar_valor wb celda = (case wb celda of Inl e \<Rightarrow> PNone | Inr v \<Rightarrow> v)"

section \<open>Streaming mode: autocompletar-consolidado-v0.2\<close>

text \<open>
  \<open>while len(current_row_values) < col_index: current_row_values.append(None)\<close>, then
  \<open>current_row_values[col_index - 1] = valor\<close>.
\<close>

definition asignar :: "fila \<Rightarrow> nat \<Rightarrow> pyval \<Rightarrow> fila" where
  "asignar current_row_values col_index valor =
     (current_row_values @ replicate (col_index - length current_row_values) PNone)
       [col_index - 1 := valor]"

text \<open>The loop over \<open>COL_INDICES_DESTINO.items()\<close>, in the dictionary's order.\<close>

definition copiar_valores :: "libro_origen \<Rightarrow> fila \<Rightarrow> fila" where
  "copiar_valores wb_codigo current_row_values =
     foldl (\<lambda>row (col_index, celda_ref_origen).
              asignar row col_index (cargar_valor wb_codigo celda_ref_origen))
       current_row_values COL_INDICES_DESTINO"

text \<open>
  The body of the loop over \<open>enumerate(ws_lectura.iter_rows(min_row=1))\<close> for the row at
  0-based position \<open>r_idx\<close>: the row appended to \<open>ws_salida\<close> and the status lines
  printed, or the exception that leaves the loop. \<open>row_data[COL_CODIGO - 1]\<close> indexes a
  tuple, and raises \<open>IndexError\<close> on a row of fewer than four cells.
\<close>

definition procesar_fila_stream ::
  "os_path \<Rightarrow> fsys \<Rightarrow> pystr \<Rightarrow> nat \<Rightarrow> fila \<Rightarrow> py_exc + (fila \<times> evento list)" where
  "procesar_fila_stream osp fs ruta_base r_idx row_data =
     (if r_idx + 1 < FILA_INICIO_DATOS then Inr (row_data, [])
      else if length row_data \<le> COL_CODIGO - 1 then Inl IndexError
      else
        let fila_actual_num = r_idx + 1;
            codigo_cell = row_data ! (COL_CODIGO - 1);
            codigo = (if py_truthy codigo_cell then py_strip (py_str codigo_cell) else [])
        in if codigo = [] then Inr (row_data, [])
           else
             let ruta_archivo_origen = os_join osp ruta_base (codigo @ lit ''.xlsx'')
             in (case fs ruta_archivo_origen of
                   Legible wb_codigo \<Rightarrow>
                     Inr (copiar_valores wb_codigo row_data, [(fila_actual_num, codigo, Copiado)])
                 | Ilegible e \<Rightarrow> Inr (row_data, [(fila_actual_num, codigo, ErrorAlLeer e)])
                 | NoExiste \<Rightarrow> Inr (row_data, [(fila_actual_num, codigo, ArchivoNoEncontrado)])))"

text \<open>
  The loop itself: \<open>ws_salida\<close> is the output sheet built so far (\<open>append\<close> adds one
  row at its end), \<open>registro\<close> the status lines printed so far.
\<close>

fun procesar_filas_stream ::
  "os_path \<Rightarrow> fsys \<Rightarrow> pystr \<Rightarrow> nat \<Rightarrow> hoja \<Rightarrow> hoja \<Rightarrow> evento list
     \<Rightarrow> py_exc + (hoja \<times> evento list)" where
  "procesar_filas_stream osp fs ruta_base r_idx [] ws_salida registro = Inr (ws_salida, registro)"
| "procesar_filas_stream osp fs ruta_base r_idx (row_data # resto) ws_salida registro =
     (case procesar_fila_stream osp fs ruta_base r_idx row_data of
        Inl e \<Rightarrow> Inl e
      | Inr (current_row_values, evs) \<Rightarrow>
          procesar_filas_stream osp fs ruta_base (Suc r_idx) resto
            (ws_salida @ [current_row_values]) (registro @ evs))"

text \<open>
  Workbooks by sheet name: \<open>wb.sheetnames\<close>, \<open>wb[name]\<close> and
  \<open>wb.create_sheet(title=name)\<close> (a new sheet after the others); \<open>poner_hoja\<close> stores
  the rows of a sheet that is there, or creates it.
\<close>

definition sheetnames :: "libro \<Rightarrow> pystr list" where
  "sheetnames wb = map fst wb"

definition hoja_de :: "libro \<Rightarrow> pystr \<Rightarrow> hoja option" where
  "hoja_de wb nombre = map_of wb nombre"

definition poner_hoja :: "libro \<Rightarrow> pystr \<Rightarrow> hoja \<Rightarrow> libro" where
  "poner_hoja wb nombre ws =
     (if nombre \<in> set (sheetnames wb)
      then map (\<lambda>(n, h). if n = nombre then (n, ws) else (n, h)) wb
      else wb @ [(nombre, ws)])"

text \<open>The loop over \<open>HOJAS_OBJETIVO\<close>.\<close>

fun procesar_hojas_stream ::
  "os_path \<Rightarrow> fsys \<Rightarrow> pystr \<Rightarrow> libro \<Rightarrow> pystr list \<Rightarrow> libro \<Rightarrow> evento list
     \<Rightarrow> py_exc + (libro \<times> evento list)" where
  "procesar_hojas_stream osp fs ruta_base wb_lectura [] wb_salida registro =
     Inr (wb_salida, registro)"
| "procesar_hojas_stream osp fs ruta_base wb_lectura (nombre # resto) wb_salida registro =
     (case hoja_de wb_lectura nombre of
        None \<Rightarrow> procesar_hojas_stream osp fs ruta_base wb_lectura resto wb_salida registro
      | Some ws_lectura \<Rightarrow>
          (case procesar_filas_stream osp fs ruta_base 0 ws_lectura
                  (case hoja_de wb_salida nombre of Some ws \<Rightarrow> ws | None \<Rightarrow> []) registro of
             Inl e \<Rightarrow> Inl e
           | Inr (ws_salida, registro') \<Rightarrow>
               procesar_hojas_stream osp fs ruta_base wb_lectura resto
                 (poner_hoja wb_salida nombre ws_salida) registro'))"

text \<open>The sheets that are no target and not yet in the output are copied row by row.\<close>

definition copiar_hojas_no_procesadas :: "libro \<Rightarrow> libro \<Rightarrow> libro" where
  "copiar_hojas_no_procesadas wb_lectura wb_salida =
     foldl (\<lambda>salida (existing_sheet_name, ws_original).
              if existing_sheet_name \<notin> set HOJAS_OBJETIVO \<and>
                 existing_sheet_name \<notin> set (sheetnames salida)
              then salida @ [(existing_sheet_name, ws_original)] else salida)
       wb_salida wb_lectura"

text \<open>
  What a run meets outside the scripts: the working directory, the per-entity files,
  whether \<open>CONSOLIDADO.xlsx\<close> exists, what loading it gives, and the exception
  \<open>wb.save\<close> raises, if any. A run ends with the exit code of the process, the
  workbook saved, if one was, and the status lines printed.
\<close>

record entorno =
  getcwd :: pystr
  archivos :: fsys
  maestro_existe :: bool
  cargar_maestro :: "py_exc + libro"
  error_al_guardar :: "py_exc option"

record resultado =
  codigo_salida :: int
  guardado :: "libro option"
  registro_final :: "evento list"

text \<open>
  \<open>main\<close> of the streaming script: \<open>return\<close> ends the process with exit code 0,
  \<open>sys.exit(1)\<close> with 1.
\<close>

definition main_v02 :: "os_path \<Rightarrow> entorno \<Rightarrow> resultado" where
  "main_v02 osp env =
     (if \<not> maestro_existe env
      then \<lparr> codigo_salida = 0, guardado = None, registro_final = [] \<rparr>
      else
        (case cargar_maestro env of
           Inl e \<Rightarrow> \<lparr> codigo_salida = 1, guardado = None, registro_final = [] \<rparr>
         | Inr wb_consolidado_lectura \<Rightarrow>
             (case procesar_hojas_stream osp (archivos env) (getcwd env)
                     wb_consolidado_lectura HOJAS_OBJETIVO [] [] of
                Inl e \<Rightarrow> \<lparr> codigo_salida = 1, guardado = None, registro_final = [] \<rparr>
              | Inr (wb_salida, registro) \<Rightarrow>
                  (case error_al_guardar env of
                     Some e \<Rightarrow>
                       \<lparr> codigo_salida = 1, guardado = None, registro_final = registro \<rparr>
                   | None \<Rightarrow>
                       \<lparr> codigo_salida = 0,
                         guardado = Some (copiar_hojas_no_procesadas wb_consolidado_lectura wb_salida),
                         registro_final = registro \<rparr>))))"

section \<open>In-place modes: autocompletar-consolidado and its version 1.0\<close>

text \<open>
  The worksheet of a fully loaded workbook. \<open>ws.cell(row=r, column=c).value\<close> is
  \<open>None\<close> for a cell the sheet does not hold. \<open>ws.cell(row=r, column=c, value=v)\<close>
  assigns the value only when it is not \<open>None\<close> (openpyxl's
  \<open>Worksheet.cell\<close>: \<open>if value is not None: cell.value = value\<close>), so a call with
  \<open>None\<close> leaves the cell as it was. Values are taken to be ones a cell accepts.
\<close>

definition ws_cell_value :: "hoja \<Rightarrow> nat \<Rightarrow> nat \<Rightarrow> pyval" where
  "ws_cell_value ws r c =
     (if 1 \<le> r \<and> r \<le> length ws \<and> 1 \<le> c \<and> c \<le> length (ws ! (r - 1))
      then ws ! (r - 1) ! (c - 1) else PNone)"

definition ws_cell_set :: "hoja \<Rightarrow> nat \<Rightarrow> nat \<Rightarrow> pyval \<Rightarrow> hoja" where
  "ws_cell_set ws r c v =
     (case v of
        PNone \<Rightarrow> ws
      | _ \<Rightarrow>
          let ws1 = ws @ replicate (r - length ws) [];
              row = ws1 ! (r - 1)
          in ws1[r - 1 := (row @ replicate (c - length row) PNone)[c - 1 := v]])"

text \<open>
  The body of the \<open>while True\<close> loop of \<open>procesar_hoja\<close> after the emptiness test, for
  the row \<open>fila\<close> whose code cell holds \<open>codigo\<close>: the sheet after the row and the
  status line printed.
\<close>

definition procesar_fila ::
  "os_path \<Rightarrow> fsys \<Rightarrow> pystr \<Rightarrow> hoja \<Rightarrow> nat \<Rightarrow> pyval \<Rightarrow> hoja \<times> evento" where
  "procesar_fila osp fs ruta_base ws fila codigo_celda =
     (let codigo = py_strip (py_str codigo_celda);
          nombre_archivo = codigo @ lit ''.xlsx'';
          ruta_archivo = os_join osp ruta_base nombre_archivo
      in (case fs ruta_archivo of
            Legible wb_codigo \<Rightarrow>
              (foldl (\<lambda>w (col_letra, celda).
                        ws_cell_set w fila (column_index_from_string col_letra)
                          (cargar_valor wb_codigo celda))
                 ws COLUMNAS_DESTINO,
               (fila, codigo, Copiado))
          | Ilegible e \<Rightarrow> (ws, (fila, codigo, ErrorAlLeer e))
          | NoExiste \<Rightarrow> (ws, (fila, codigo, ArchivoNoEncontrado))))"

text \<open>The same for the link script, which writes a formula whether the file exists or not.\<close>

definition formula_enlace :: "pystr \<Rightarrow> pystr \<Rightarrow> pystr \<Rightarrow> pystr" where
  "formula_enlace path_para_formula nombre_archivo_base celda_origen_ref =
     lit ''='' @ [39] @ path_para_formula @ lit ''['' @ nombre_archivo_base @ lit '']'' @
     NOMBRE_HOJA_ORIGEN_FIJO @ [39] @ lit ''!'' @ celda_origen_ref"

definition path_para_formula :: "os_path \<Rightarrow> pystr \<Rightarrow> pystr" where
  "path_para_formula osp directorio_origen =
     (if directorio_origen \<noteq> [] \<and> \<not> py_endswith directorio_origen (os_sep osp)
      then directorio_origen @ os_sep osp else directorio_origen)"

definition procesar_fila_v1 ::
  "os_path \<Rightarrow> fsys \<Rightarrow> hoja \<Rightarrow> nat \<Rightarrow> pyval \<Rightarrow> hoja \<times> evento" where
  "procesar_fila_v1 osp fs ws fila codigo_celda =
     (let codigo = py_strip (py_str codigo_celda);
          nombre_archivo_codigo = codigo @ lit ''.xlsx'';
          ruta_absoluta_archivo_codigo =
            os_abspath osp (os_join osp RUTA_ARCHIVOS_ORIGEN nombre_archivo_codigo);
          directorio_origen = os_dirname osp ruta_absoluta_archivo_codigo;
          nombre_archivo_base = os_basename osp ruta_absoluta_archivo_codigo;
          archivo_existe = isfile fs ruta_absoluta_archivo_codigo
      in (foldl (\<lambda>w (col_letra, celda_origen_ref).
                   ws_cell_set w fila (column_index_from_string col_letra)
                     (PStr (formula_enlace (path_para_formula osp directorio_origen)
                              nombre_archivo_base celda_origen_ref)))
            ws COLUMNAS_DESTINO_V1,
          (fila, codigo, if archivo_existe then FormulaAnadida else FormulaSinArchivo)))"

lemma length_ws_cell_set: "r \<le> length ws \<Longrightarrow> length (ws_cell_set ws r c v) = length ws"
  by (cases v) (simp_all add: ws_cell_set_def Let_def)

lemma length_foldl_ws_cell_set:
  "r \<le> length ws \<Longrightarrow>
   length (foldl (\<lambda>w (a, b). ws_cell_set w r (f a) (g b)) ws xs) = length ws"
  by (induction xs arbitrary: ws) (auto simp: length_ws_cell_set)

lemma length_procesar_fila:
  "fila \<le> length ws \<Longrightarrow> length (fst (procesar_fila osp fs ruta_base ws fila v)) = length ws"
  by (simp add: procesar_fila_def Let_def length_foldl_ws_cell_set split: archivo.splits)

lemma length_procesar_fila_v1:
  "fila \<le> length ws \<Longrightarrow> length (fst (procesar_fila_v1 osp fs ws fila v)) = length ws"
  by (simp add: procesar_fila_v1_def Let_def length_foldl_ws_cell_set)

lemma truthy_cell_in_sheet: "py_truthy (ws_cell_value ws r c) \<Longrightarrow> 1 \<le> r \<and> r \<le> length ws"
  by (auto simp: ws_cell_value_def split: if_splits)

text \<open>
  \<open>procesar_hoja\<close>: the loop from the row \<open>fila\<close> on. It ends at the first row whose
  code cell is falsy, at the latest at the row after the sheet's last.
\<close>

function procesar_hoja_desde ::
  "os_path \<Rightarrow> fsys \<Rightarrow> pystr \<Rightarrow> hoja \<Rightarrow> nat \<Rightarrow> hoja \<times> evento list" where
  "procesar_hoja_desde osp fs ruta_base ws fila =
     (if \<not> py_truthy (ws_cell_value ws fila COL_CODIGO) then (ws, [])
      else
        (case procesar_fila osp fs ruta_base ws fila (ws_cell_value ws fila COL_CODIGO) of
           (ws', ev) \<Rightarrow>
             (case procesar_hoja_desde osp fs ruta_base ws' (fila + 1) of
                (ws'', evs) \<Rightarrow> (ws'', ev # evs))))"
  by pat_completeness auto
termination
proof (relation "measure (\<lambda>(osp, fs, ruta_base, ws, fila). Suc (length ws) - fila)")
  show "wf (measure (\<lambda>(osp, fs, ruta_base, ws, fila). Suc (length ws) - fila))"
    by simp
next
  fix osp :: os_path and fs :: fsys and ruta_base :: pystr and ws :: hoja and fila :: nat
    and ws' :: hoja and ev :: evento
  assume t: "\<not> \<not> py_truthy (ws_cell_value ws fila COL_CODIGO)"
    and p: "(ws', ev) =
      procesar_fila osp fs ruta_base ws fila (ws_cell_value ws fila COL_CODIGO)"
  from t have le: "fila \<le> length ws"
    using truthy_cell_in_sheet by blast
  have "length ws' = length ws"
    using length_procesar_fila [OF le, of osp fs ruta_base "ws_cell_value ws fila COL_CODIGO"] p
    by (metis fst_conv)
  with le show "((osp, fs, ruta_base, ws', fila + 1), (osp, fs, ruta_base, ws, fila))
      \<in> measure (\<lambda>(osp, fs, ruta_base, ws, fila). Suc (length ws) - fila)"
    by simp
qed

declare procesar_hoja_desde.simps [simp del]

definition procesar_hoja :: "os_path \<Rightarrow> fsys \<Rightarrow> pystr \<Rightarrow> hoja \<Rightarrow> hoja \<times> evento list" where
  "procesar_hoja osp fs ruta_base ws = procesar_hoja_desde osp fs ruta_base ws FILA_INICIO"

function procesar_hoja_v1_desde :: "os_path \<Rightarrow> fsys \<Rightarrow> hoja \<Rightarrow> nat \<Rightarrow> hoja \<times> evento list" where
  "procesar_hoja_v1_desde osp fs ws fila =
     (if \<not> py_truthy (ws_cell_value ws fila COL_CODIGO) then (ws, [])
      else
        (case procesar_fila_v1 osp fs ws fila (ws_cell_value ws fila COL_CODIGO) of
           (ws', ev) \<Rightarrow>
             (case procesar_hoja_v1_desde osp fs ws' (fila + 1) of
                (ws'', evs) \<Rightarrow> (ws'', ev # evs))))"
  by pat_completeness auto
termination
proof (relation "measure (\<lambda>(osp, fs, ws, fila). Suc (length ws) - fila)")
  show "wf (measure (\<lambda>(osp, fs, ws, fila). Suc (length ws) - fila))"
    by simp
next
  fix osp :: os_path and fs :: fsys and ws :: hoja and fila :: nat
    and ws' :: hoja and ev :: evento
  assume t: "\<not> \<not> py_truthy (ws_cell_value ws fila COL_CODIGO)"
    and p: "(ws', ev) = procesar_fila_v1 osp fs ws fila (ws_cell_value ws fila COL_CODIGO)"
  from t have le: "fila \<le> length ws"
    using truthy_cell_in_sheet by blast
  have "length ws' = length ws"
    using length_procesar_fila_v1 [OF le, of osp fs "ws_cell_value ws fila COL_CODIGO"] p
    by (metis fst_conv)
  with le show "((osp, fs, ws', fila + 1), (osp, fs, ws, fila))
      \<in> measure (\<lambda>(osp, fs, ws, fila). Suc (length ws) - fila)"
    by simp
qed

declare procesar_hoja_v1_desde.simps [simp del]

definition procesar_hoja_v1 :: "os_path \<Rightarrow> fsys \<Rightarrow> hoja \<Rightarrow> hoja \<times> evento list" where
  "procesar_hoja_v1 osp fs ws = procesar_hoja_v1_desde osp fs ws FILA_INICIO"

text \<open>
  \<open>main\<close> of the two in-place scripts: the loop over \<open>HOJAS_OBJETIVO\<close>, which both
  scripts write alike around their own \<open>procesar_hoja\<close>, then \<open>wb.save\<close>. Neither
  script calls \<open>sys.exit\<close>: every path ends by \<open>return\<close> or by falling off the end
  of \<open>main\<close>.
\<close>

fun procesar_hojas_objetivo ::
  "(hoja \<Rightarrow> hoja \<times> evento list) \<Rightarrow> libro \<Rightarrow> pystr list \<Rightarrow> evento list
     \<Rightarrow> libro \<times> evento list" where
  "procesar_hojas_objetivo procesar wb [] registro = (wb, registro)"
| "procesar_hojas_objetivo procesar wb (hoja # resto) registro =
     (case hoja_de wb hoja of
        None \<Rightarrow> procesar_hojas_objetivo procesar wb resto registro
      | Some ws \<Rightarrow>
          (case procesar ws of
             (ws', evs) \<Rightarrow>
               procesar_hojas_objetivo procesar (poner_hoja wb hoja ws') resto (registro @ evs)))"

definition main_en_memoria ::
  "(hoja \<Rightarrow> hoja \<times> evento list) \<Rightarrow> entorno \<Rightarrow> resultado" where
  "main_en_memoria procesar env =
     (if \<not> maestro_existe env
      then \<lparr> codigo_salida = 0, guardado = None, registro_final = [] \<rparr>
      else
        (case cargar_maestro env of
           Inl e \<Rightarrow> \<lparr> codigo_salida = 0, guardado = None, registro_final = [] \<rparr>
         | Inr wb \<Rightarrow>
             (case procesar_hojas_objetivo procesar wb HOJAS_OBJETIVO [] of
                (wb', registro) \<Rightarrow>
                  (case error_al_guardar env of
                     Some e \<Rightarrow>
                       \<lparr> codigo_salida = 0, guardado = None, registro_final = registro \<rparr>
                   | None \<Rightarrow>
                       \<lparr> codigo_salida = 0, guardado = Some wb', registro_final = registro \<rparr>))))"

definition main_base :: "os_path \<Rightarrow> entorno \<Rightarrow> resultado" where
  "main_base osp env = main_en_memoria (procesar_hoja osp (archivos env) (getcwd env)) env"

definition main_v10 :: "os_path \<Rightarrow> entorno \<Rightarrow> resultado" where
  "main_v10 osp env = main_en_memoria (procesar_hoja_v1 osp (archivos env)) env"

section \<open>Notions used in the statements\<close>

text \<open>
  The value of column \<open>c\<close> of a row, \<open>None\<close> beyond the row's end: what a cell
  the sheet does not hold reads as.
\<close>

definition celda :: "fila \<Rightarrow> nat \<Rightarrow> pyval" where
  "celda row c = (if 1 \<le> c \<and> c \<le> length row then row ! (c - 1) else PNone)"

text \<open>What \<open>ws_cell_set\<close> does to the row it writes.\<close>

definition fila_escrita :: "fila \<Rightarrow> nat \<Rightarrow> pyval \<Rightarrow> fila" where
  "fila_escrita row c v = (case v of PNone \<Rightarrow> row | _ \<Rightarrow> asignar row c v)"

text \<open>
  The status line and the row that \<open>procesar_fila\<close> leaves, as functions of the row
  alone: the loop body reads and writes no other row.
\<close>

definition evento_fila :: "os_path \<Rightarrow> fsys \<Rightarrow> pystr \<Rightarrow> nat \<Rightarrow> pyval \<Rightarrow> evento" where
  "evento_fila osp fs ruta_base fila v =
     (fila, py_strip (py_str v),
      (case fs (os_join osp ruta_base (py_strip (py_str v) @ lit ''.xlsx'')) of
         Legible wb \<Rightarrow> Copiado | Ilegible e \<Rightarrow> ErrorAlLeer e | NoExiste \<Rightarrow> ArchivoNoEncontrado))"

definition fila_procesada :: "os_path \<Rightarrow> fsys \<Rightarrow> pystr \<Rightarrow> fila \<Rightarrow> fila" where
  "fila_procesada osp fs ruta_base row =
     (case fs (os_join osp ruta_base
                 (py_strip (py_str (celda row COL_CODIGO)) @ lit ''.xlsx'')) of
        Legible wb \<Rightarrow>
          foldl (\<lambda>row (col_letra, celda).
                   fila_escrita row (column_index_from_string col_letra) (cargar_valor wb celda))
            row COLUMNAS_DESTINO
      | Ilegible e \<Rightarrow> row
      | NoExiste \<Rightarrow> row)"

text \<open>
  The sheet when a traversal that started at row \<open>fila\<close> arrives at row \<open>k\<close>:
  the rows from \<open>fila\<close> to \<open>k - 1\<close> have been processed by \<open>g\<close>, the others are
  as they were.
\<close>

definition hoja_al_llegar :: "(fila \<Rightarrow> fila) \<Rightarrow> hoja \<Rightarrow> nat \<Rightarrow> nat \<Rightarrow> hoja" where
  "hoja_al_llegar g ws fila k =
     map (\<lambda>(i, row). if fila \<le> i + 1 \<and> i + 1 < k then g row else row) (enumerate 0 ws)"

text \<open>
  A traversal from row \<open>fila\<close> arrives at row \<open>k\<close> when every row from \<open>fila\<close>
  to \<open>k - 1\<close> has a truthy code cell.
\<close>

definition alcanzada :: "hoja \<Rightarrow> nat \<Rightarrow> nat \<Rightarrow> bool" where
  "alcanzada ws fila k = list_all (\<lambda>j. py_truthy (ws_cell_value ws j COL_CODIGO)) [fila..<k]"

text \<open>The same notions for the link script: the resolved path, the status line, the row.\<close>

definition ruta_absoluta_v1 :: "os_path \<Rightarrow> pyval \<Rightarrow> pystr" where
  "ruta_absoluta_v1 osp v =
     os_abspath osp (os_join osp RUTA_ARCHIVOS_ORIGEN (py_strip (py_str v) @ lit ''.xlsx''))"

definition evento_fila_v1 :: "os_path \<Rightarrow> fsys \<Rightarrow> nat \<Rightarrow> pyval \<Rightarrow> evento" where
  "evento_fila_v1 osp fs fila v =
     (fila, py_strip (py_str v),
      if isfile fs (ruta_absoluta_v1 osp v) then FormulaAnadida else FormulaSinArchivo)"

definition fila_enlazada :: "os_path \<Rightarrow> fila \<Rightarrow> fila" where
  "fila_enlazada osp row =
     (let ruta = ruta_absoluta_v1 osp (celda row COL_CODIGO)
      in foldl (\<lambda>r (col_letra, celda_origen_ref).
                  fila_escrita r (column_index_from_string col_letra)
                    (PStr (formula_enlace (path_para_formula osp (os_dirname osp ruta))
                             (os_basename osp ruta) celda_origen_ref)))
           row COLUMNAS_DESTINO_V1)"

section \<open>Example inputs\<close>

text \<open>Two environments of a run: no master file, and a master file that does not load.\<close>

definition entorno_sin_maestro :: entorno where
  "entorno_sin_maestro =
     \<lparr> getcwd = lit ''/datos'', archivos = (\<lambda>p. NoExiste), maestro_existe = False,
       cargar_maestro = Inl (Excepcion (lit ''FileNotFoundError'')),
       error_al_guardar = None \<rparr>"

definition entorno_maestro_ilegible :: entorno where
  "entorno_maestro_ilegible =
     \<lparr> getcwd = lit ''/datos'', archivos = (\<lambda>p. NoExiste), maestro_existe = True,
       cargar_maestro = Inl (Excepcion (lit ''BadZipFile'')),
       error_al_guardar = None \<rparr>"

text \<open>
  A working directory \<open>/datos\<close> on a POSIX system. It holds \<open>A100.xlsx\<close>, whose active
  sheet has 42 in N21, a text in N25 and nothing in N49, N153 and N161, and
  \<open>C300.xlsx\<close>, which does not load; there is no \<open>B200.xlsx\<close>. The master sheet has
  five header rows of one cell, then the rows 6 to 10 with the codes A100, B200, C300,
  none, A100 in column D and an old value 7 in column I.
\<close>

definition ejemplo_osp :: os_path where
  "ejemplo_osp = posixpath (lit ''/datos'')"

definition libro_A100 :: libro_origen where
  "libro_A100 = (\<lambda>celda_ref.
     if celda_ref = lit ''N21'' then Inr (PInt 42)
     else if celda_ref = lit ''N25'' then Inr (PStr (lit ''ok''))
     else Inr PNone)"

definition ejemplo_fs :: fsys where
  "ejemplo_fs = (\<lambda>ruta.
     if ruta = lit ''/datos/A100.xlsx'' then Legible libro_A100
     else if ruta = lit ''/datos/C300.xlsx'' then Ilegible (Excepcion (lit ''BadZipFile''))
     else NoExiste)"

definition fila_con_codigo :: "pyval \<Rightarrow> fila" where
  "fila_con_codigo v = [PNone, PNone, PNone, v, PNone, PNone, PNone, PNone, PInt 7]"

definition cabecera :: fila where
  "cabecera = [PStr (lit ''cabecera'')]"

definition ejemplo_hoja :: hoja where
  "ejemplo_hoja =
     [cabecera, cabecera, cabecera, cabecera, cabecera,
      fila_con_codigo (PStr (lit ''A100'')), fila_con_codigo (PStr (lit ''B200'')),
      fila_con_codigo (PStr (lit ''C300'')), fila_con_codigo PNone,
      fila_con_codigo (PStr (lit ''A100''))]"

text \<open>
  A target sheet whose used range is three columns wide: every row that the read-only
  workbook yields has three cells, so row 6 has no cell in column D. It is the sheet EDU
  of a master workbook that exists and loads.
\<close>

definition hoja_corta :: hoja where
  "hoja_corta =
     [cabecera, cabecera, cabecera, cabecera, cabecera, [PStr (lit ''A100''), PNone, PNone]]"

definition entorno_hoja_corta :: entorno where
  "entorno_hoja_corta =
     \<lparr> getcwd = lit ''/datos'', archivos = ejemplo_fs, maestro_existe = True,
       cargar_maestro = Inr [(lit ''EDU'', hoja_corta)], error_al_guardar = None \<rparr>"

text \<open>
  A target sheet whose rows are not all of the same width, as the read-only workbook
  yields them for a worksheet that records no dimension: row 6 has the code A100 in
  column D, row 7 has cells in the columns A to C only, so its code cell is empty, and
  row 8 has the code B200. It is the sheet EDU of a master workbook that exists and loads.
\<close>

definition hoja_fila_corta :: hoja where
  "hoja_fila_corta =
     [cabecera, cabecera, cabecera, cabecera, cabecera,
      fila_con_codigo (PStr (lit ''A100'')), [PStr (lit ''nota''), PNone, PNone],
      fila_con_codigo (PStr (lit ''B200''))]"

definition entorno_fila_corta :: entorno where
  "entorno_fila_corta =
     \<lparr> getcwd = lit ''/datos'', archivos = ejemplo_fs, maestro_existe = True,
       cargar_maestro = Inr [(lit ''EDU'', hoja_fila_corta)], error_al_guardar = None \<rparr>"


section \<open>Rows, cells and the traversal of a sheet\<close>

lemma length_asignar: "length (asignar row c v) = max (length row) c"
  by (simp add: asignar_def)

lemma nth_asignar:
  "1 \<le> c \<Longrightarrow> j < max (length row) c \<Longrightarrow>
   asignar row c v ! j = (if j = c - 1 then v else if j < length row then row ! j else PNone)"
  by (simp add: asignar_def nth_list_update nth_append)

lemma celda_asignar: "1 \<le> c \<Longrightarrow> celda (asignar row c v) j = (if j = c then v else celda row j)"
proof -
  assume c: "1 \<le> c"
  consider (eq) "j = c" | (zero) "j \<noteq> c" "j = 0" | (inrow) "j \<noteq> c" "1 \<le> j" "j \<le> length row"
    | (pad) "j \<noteq> c" "length row < j" "j \<le> c" | (out) "j \<noteq> c" "length row < j" "c < j"
    by linarith
  then show ?thesis
  proof cases
    case eq
    have "c - 1 < max (length row) c" using c by simp
    from nth_asignar [OF c this, of v] have "asignar row c v ! (c - 1) = v" by simp
    moreover have "c \<le> max (length row) c" by (rule max.cobounded2)
    ultimately show ?thesis using eq c by (simp add: celda_def length_asignar)
  next
    case zero
    then show ?thesis by (simp add: celda_def)
  next
    case inrow
    have lt: "j - 1 < max (length row) c" using inrow by simp
    have ne: "j - 1 \<noteq> c - 1" using inrow c by simp
    have inr: "j - 1 < length row" using inrow by linarith
    from nth_asignar [OF c lt, of v] ne inr have "asignar row c v ! (j - 1) = row ! (j - 1)"
      by simp
    moreover have "j \<le> max (length row) c" using inrow by (simp add: le_max_iff_disj)
    ultimately show ?thesis using inrow by (simp add: celda_def length_asignar)
  next
    case pad
    have lt: "j - 1 < max (length row) c" using pad by simp
    have ne: "j - 1 \<noteq> c - 1" using pad c by simp
    have nin: "\<not> j - 1 < length row" using pad by linarith
    from nth_asignar [OF c lt, of v] ne nin have "asignar row c v ! (j - 1) = PNone"
      by simp
    moreover have "j \<le> max (length row) c" using pad by (simp add: le_max_iff_disj)
    moreover have "\<not> j \<le> length row" "1 \<le> j" using pad by linarith+
    ultimately show ?thesis using pad by (simp add: celda_def length_asignar)
  next
    case out
    then have "\<not> j \<le> max (length row) c" "\<not> j \<le> length row" by simp_all
    then show ?thesis using out by (simp add: celda_def length_asignar)
  qed
qed

lemma COL_INDICES_DESTINO_eq:
  "COL_INDICES_DESTINO =
     [(6, lit ''N21''), (7, lit ''N25''), (9, lit ''N49''), (11, lit ''N153''), (13, lit ''N161'')]"
  by (simp add: COL_INDICES_DESTINO_def COLUMNAS_DESTINO_def column_index_from_string_def lit_def)

lemma celda_foldl_asignar:
  "distinct (map fst xs) \<Longrightarrow> \<forall>c \<in> fst ` set xs. 1 \<le> c \<Longrightarrow>
   celda (foldl (\<lambda>row (c, ref). asignar row c (g ref)) row xs) j =
     (case map_of xs j of Some ref \<Rightarrow> g ref | None \<Rightarrow> celda row j)"
proof (induction xs arbitrary: row)
  case Nil
  then show ?case by simp
next
  case (Cons x xs)
  obtain c ref where x: "x = (c, ref)" by (cases x)
  from Cons.prems x have d: "distinct (map fst xs)" and nin: "c \<notin> fst ` set xs"
    and ge: "\<forall>c \<in> fst ` set xs. 1 \<le> c" and c1: "1 \<le> c"
    by auto
  have ih: "celda (foldl (\<lambda>row (c, ref). asignar row c (g ref)) (asignar row c (g ref)) xs) j =
      (case map_of xs j of Some ref \<Rightarrow> g ref | None \<Rightarrow> celda (asignar row c (g ref)) j)"
    by (rule Cons.IH [OF d ge])
  show ?case
  proof (cases "j = c")
    case True
    then have "map_of xs j = None"
      using nin by (simp add: map_of_eq_None_iff)
    then show ?thesis
      using ih x True celda_asignar [OF c1, of row "g ref" j] by simp
  next
    case False
    then show ?thesis
      using ih x celda_asignar [OF c1, of row "g ref" j] by (simp split: option.splits)
  qed
qed

lemma celda_copiar_valores:
  "celda (copiar_valores wb row) j =
     (case map_of COL_INDICES_DESTINO j of
        Some ref \<Rightarrow> cargar_valor wb ref | None \<Rightarrow> celda row j)"
  unfolding copiar_valores_def
  by (rule celda_foldl_asignar) (simp_all add: COL_INDICES_DESTINO_eq)

lemma length_copiar_valores: "length (copiar_valores wb row) = max (length row) 13"
  by (simp add: copiar_valores_def COL_INDICES_DESTINO_eq length_asignar)

lemma fila_stream_Inr:
  "r_idx + 1 < FILA_INICIO_DATOS \<or> COL_CODIGO \<le> length row \<Longrightarrow>
   \<exists>row' evs. procesar_fila_stream osp fs base r_idx row = Inr (row', evs)"
  by (auto simp: procesar_fila_stream_def Let_def COL_CODIGO_def split: archivo.splits)

lemma filas_stream_ok:
  "\<forall>i < length ws. FILA_INICIO_DATOS \<le> r + i + 1 \<longrightarrow> COL_CODIGO \<le> length (ws ! i) \<Longrightarrow>
   \<exists>out evs. procesar_filas_stream osp fs base r ws acc reg = Inr (acc @ out, reg @ evs) \<and>
     length out = length ws \<and>
     (\<forall>i < length ws. \<exists>e. procesar_fila_stream osp fs base (r + i) (ws ! i) = Inr (out ! i, e))"
proof (induction ws arbitrary: r acc reg)
  case Nil
  then show ?case by simp
next
  case (Cons row ws)
  have "r + 1 < FILA_INICIO_DATOS \<or> COL_CODIGO \<le> length row"
  proof (cases "FILA_INICIO_DATOS \<le> r + 1")
    case True
    then show ?thesis using Cons.prems [rule_format, of 0] by simp
  next
    case False
    then show ?thesis by simp
  qed
  then obtain row' evs where h: "procesar_fila_stream osp fs base r row = Inr (row', evs)"
    using fila_stream_Inr by blast
  have "\<forall>i < length ws. FILA_INICIO_DATOS \<le> Suc r + i + 1 \<longrightarrow> COL_CODIGO \<le> length (ws ! i)"
  proof (intro allI impI)
    fix i assume "i < length ws" "FILA_INICIO_DATOS \<le> Suc r + i + 1"
    then show "COL_CODIGO \<le> length (ws ! i)"
      using Cons.prems [rule_format, of "Suc i"] by simp
  qed
  from Cons.IH [OF this, of "acc @ [row']" "reg @ evs"]
  obtain out evs' where t:
    "procesar_filas_stream osp fs base (Suc r) ws (acc @ [row']) (reg @ evs) =
       Inr ((acc @ [row']) @ out, (reg @ evs) @ evs')"
    "length out = length ws"
    "\<forall>i < length ws. \<exists>e. procesar_fila_stream osp fs base (Suc r + i) (ws ! i) = Inr (out ! i, e)"
    by blast
  have rows: "\<forall>i < length (row # ws). \<exists>e.
      procesar_fila_stream osp fs base (r + i) ((row # ws) ! i) = Inr ((row' # out) ! i, e)"
  proof (intro allI impI)
    fix i assume i: "i < length (row # ws)"
    show "\<exists>e. procesar_fila_stream osp fs base (r + i) ((row # ws) ! i) = Inr ((row' # out) ! i, e)"
    proof (cases i)
      case 0
      then show ?thesis using h by simp
    next
      case (Suc k)
      then show ?thesis using t(3) [rule_format, of k] i by simp
    qed
  qed
  have "procesar_filas_stream osp fs base r (row # ws) acc reg =
      Inr (acc @ (row' # out), reg @ (evs @ evs'))"
    using h t(1) by simp
  moreover have "length (row' # out) = length (row # ws)"
    using t(2) by simp
  ultimately show ?case
    using rows by blast
qed

lemma ws_cell_value_celda:
  "1 \<le> r \<Longrightarrow> r \<le> length ws \<Longrightarrow> ws_cell_value ws r c = celda (ws ! (r - 1)) c"
  by (simp add: ws_cell_value_def celda_def)

lemma ws_cell_set_row:
  "1 \<le> r \<Longrightarrow> r \<le> length ws \<Longrightarrow>
   ws_cell_set ws r c v = ws[r - 1 := fila_escrita (ws ! (r - 1)) c v]"
  by (cases v) (simp_all add: ws_cell_set_def fila_escrita_def asignar_def Let_def)

lemma foldl_ws_cell_set_row:
  "1 \<le> r \<Longrightarrow> r \<le> length ws \<Longrightarrow>
   foldl (\<lambda>w (a, b). ws_cell_set w r (f a) (g b)) ws xs =
     ws[r - 1 := foldl (\<lambda>row (a, b). fila_escrita row (f a) (g b)) (ws ! (r - 1)) xs]"
proof (induction xs arbitrary: ws)
  case Nil
  then show ?case by simp
next
  case (Cons x xs)
  obtain a b where x: "x = (a, b)" by (cases x)
  let ?ws1 = "ws[r - 1 := fila_escrita (ws ! (r - 1)) (f a) (g b)]"
  have len: "r \<le> length ?ws1" using Cons.prems by simp
  have nth1: "?ws1 ! (r - 1) = fila_escrita (ws ! (r - 1)) (f a) (g b)"
    using Cons.prems by simp
  have "foldl (\<lambda>w (a, b). ws_cell_set w r (f a) (g b)) ?ws1 xs =
      ?ws1[r - 1 := foldl (\<lambda>row (a, b). fila_escrita row (f a) (g b)) (?ws1 ! (r - 1)) xs]"
    by (rule Cons.IH [OF Cons.prems(1) len])
  then show ?case
    using x nth1 ws_cell_set_row [OF Cons.prems, of "f a" "g b"] by simp
qed

lemma procesar_fila_eq:
  assumes "1 \<le> fila" "fila \<le> length ws"
  shows "procesar_fila osp fs ruta_base ws fila (ws_cell_value ws fila COL_CODIGO) =
     (ws[fila - 1 := fila_procesada osp fs ruta_base (ws ! (fila - 1))],
      evento_fila osp fs ruta_base fila (celda (ws ! (fila - 1)) COL_CODIGO))"
proof -
  have v: "ws_cell_value ws fila COL_CODIGO = celda (ws ! (fila - 1)) COL_CODIGO"
    using assms by (rule ws_cell_value_celda)
  show ?thesis
    unfolding v procesar_fila_def fila_procesada_def evento_fila_def Let_def
    by (simp add: foldl_ws_cell_set_row [OF assms] split: archivo.splits)
qed

lemma length_hoja_al_llegar: "length (hoja_al_llegar g ws fila k) = length ws"
  by (simp add: hoja_al_llegar_def)

lemma nth_hoja_al_llegar:
  "i < length ws \<Longrightarrow>
   hoja_al_llegar g ws fila k ! i = (if fila \<le> i + 1 \<and> i + 1 < k then g (ws ! i) else ws ! i)"
  by (simp add: hoja_al_llegar_def nth_enumerate_eq)

lemma hoja_al_llegar_inicio: "hoja_al_llegar g ws fila fila = ws"
  by (rule nth_equalityI) (auto simp add: length_hoja_al_llegar nth_hoja_al_llegar)

lemma hoja_al_llegar_paso:
  assumes "1 \<le> fila" "fila \<le> n" "n \<le> length ws"
  shows "(hoja_al_llegar g ws fila n)[n - 1 := g (ws ! (n - 1))] = hoja_al_llegar g ws fila (Suc n)"
proof (rule nth_equalityI)
  show "length ((hoja_al_llegar g ws fila n)[n - 1 := g (ws ! (n - 1))]) =
      length (hoja_al_llegar g ws fila (Suc n))"
    by (simp add: length_hoja_al_llegar)
next
  fix i assume "i < length ((hoja_al_llegar g ws fila n)[n - 1 := g (ws ! (n - 1))])"
  then have i: "i < length ws" by (simp add: length_hoja_al_llegar)
  show "(hoja_al_llegar g ws fila n)[n - 1 := g (ws ! (n - 1))] ! i =
      hoja_al_llegar g ws fila (Suc n) ! i"
  proof (cases "i = n - 1")
    case True
    then show ?thesis
      using i assms by (simp add: length_hoja_al_llegar nth_hoja_al_llegar)
  next
    case False
    then have "i + 1 \<noteq> n" using assms by linarith
    then show ?thesis
      using i False by (auto simp add: length_hoja_al_llegar nth_hoja_al_llegar)
  qed
qed

lemma alcanzada_Suc:
  "fila \<le> n \<Longrightarrow>
   alcanzada ws fila (Suc n) = (alcanzada ws fila n \<and> py_truthy (ws_cell_value ws n COL_CODIGO))"
  by (simp add: alcanzada_def)

lemma celda_codigo_al_llegar:
  assumes "1 \<le> n" "n \<le> length ws"
  shows "ws_cell_value (hoja_al_llegar g ws fila n) n COL_CODIGO = ws_cell_value ws n COL_CODIGO"
proof -
  have "hoja_al_llegar g ws fila n ! (n - 1) = ws ! (n - 1)"
    using assms by (simp add: nth_hoja_al_llegar)
  then show ?thesis
    using assms by (simp add: ws_cell_value_celda length_hoja_al_llegar)
qed

lemma procesar_hoja_desde_paso:
  assumes "1 \<le> fila" "fila \<le> n" "py_truthy (ws_cell_value ws n COL_CODIGO)"
  shows "procesar_hoja_desde osp fs ruta_base
           (hoja_al_llegar (fila_procesada osp fs ruta_base) ws fila n) n =
     (case procesar_hoja_desde osp fs ruta_base
             (hoja_al_llegar (fila_procesada osp fs ruta_base) ws fila (Suc n)) (Suc n) of
        (w, evs) \<Rightarrow>
          (w, evento_fila osp fs ruta_base n (celda (ws ! (n - 1)) COL_CODIGO) # evs))"
proof -
  let ?g = "fila_procesada osp fs ruta_base"
  let ?H = "hoja_al_llegar ?g ws fila n"
  have n: "1 \<le> n" "n \<le> length ws"
    using assms(3) truthy_cell_in_sheet by blast+
  have nH: "n \<le> length ?H" using n by (simp add: length_hoja_al_llegar)
  have row: "?H ! (n - 1) = ws ! (n - 1)"
    using n by (simp add: nth_hoja_al_llegar)
  have cod: "ws_cell_value ?H n COL_CODIGO = ws_cell_value ws n COL_CODIGO"
    using n by (rule celda_codigo_al_llegar)
  have body: "procesar_fila osp fs ruta_base ?H n (ws_cell_value ?H n COL_CODIGO) =
      (hoja_al_llegar ?g ws fila (Suc n),
       evento_fila osp fs ruta_base n (celda (ws ! (n - 1)) COL_CODIGO))"
    using procesar_fila_eq [OF n(1) nH, of osp fs ruta_base]
      hoja_al_llegar_paso [OF assms(1,2) n(2), of ?g] row by simp
  have t: "py_truthy (ws_cell_value ?H n COL_CODIGO)"
    using cod assms(3) by simp
  show ?thesis
    by (subst procesar_hoja_desde.simps) (simp add: t body)
qed

lemma procesar_hoja_desde_llegar:
  assumes "1 \<le> fila" "fila \<le> k" "alcanzada ws fila k"
  shows "procesar_hoja_desde osp fs ruta_base ws fila =
     (case procesar_hoja_desde osp fs ruta_base
             (hoja_al_llegar (fila_procesada osp fs ruta_base) ws fila k) k of
        (w, evs) \<Rightarrow>
          (w, map (\<lambda>j. evento_fila osp fs ruta_base j (celda (ws ! (j - 1)) COL_CODIGO))
                [fila..<k] @ evs))"
  using assms(2,3)
proof (induct k rule: dec_induct)
  case base
  show ?case by (simp add: hoja_al_llegar_inicio split: prod.splits)
next
  case (step n)
  from step.prems step.hyps(1) have a: "alcanzada ws fila n"
    and t: "py_truthy (ws_cell_value ws n COL_CODIGO)"
    by (simp_all add: alcanzada_Suc)
  have up: "[fila..<Suc n] = [fila..<n] @ [n]"
    using step.hyps(1) by simp
  show ?case
    unfolding step.hyps(3) [OF a] procesar_hoja_desde_paso [OF assms(1) step.hyps(1) t] up
    by (simp split: prod.splits)
qed

lemma celda_codigo_al_llegar_gen:
  "ws_cell_value (hoja_al_llegar g ws fila n) n COL_CODIGO = ws_cell_value ws n COL_CODIGO"
proof (cases "1 \<le> n \<and> n \<le> length ws")
  case True
  then show ?thesis by (simp add: celda_codigo_al_llegar)
next
  case False
  then show ?thesis by (auto simp add: ws_cell_value_def length_hoja_al_llegar)
qed

lemma procesar_hoja_desde_fin:
  assumes "1 \<le> fila" "fila \<le> k" "alcanzada ws fila k"
    and "\<not> py_truthy (ws_cell_value ws k COL_CODIGO)"
  shows "procesar_hoja_desde osp fs ruta_base ws fila =
     (hoja_al_llegar (fila_procesada osp fs ruta_base) ws fila k,
      map (\<lambda>j. evento_fila osp fs ruta_base j (celda (ws ! (j - 1)) COL_CODIGO)) [fila..<k])"
proof -
  have "procesar_hoja_desde osp fs ruta_base
          (hoja_al_llegar (fila_procesada osp fs ruta_base) ws fila k) k =
      (hoja_al_llegar (fila_procesada osp fs ruta_base) ws fila k, [])"
    by (subst procesar_hoja_desde.simps) (simp add: celda_codigo_al_llegar_gen assms(4))
  then show ?thesis
    using procesar_hoja_desde_llegar [OF assms(1,2,3), of osp fs ruta_base] by simp
qed

lemma procesar_hoja_desde_frame:
  "length (fst (procesar_hoja_desde osp fs ruta_base ws fila)) = length ws \<and>
   (\<forall>i. i + 1 < fila \<longrightarrow> fst (procesar_hoja_desde osp fs ruta_base ws fila) ! i = ws ! i)"
proof (induction osp fs ruta_base ws fila rule: procesar_hoja_desde.induct)
  case (1 osp fs ruta_base ws fila)
  show ?case
  proof (cases "py_truthy (ws_cell_value ws fila COL_CODIGO)")
    case False
    then show ?thesis by (subst procesar_hoja_desde.simps, simp)+
  next
    case True
    then have f: "1 \<le> fila" "fila \<le> length ws"
      using truthy_cell_in_sheet by blast+
    let ?ws' = "ws[fila - 1 := fila_procesada osp fs ruta_base (ws ! (fila - 1))]"
    let ?ev = "evento_fila osp fs ruta_base fila (celda (ws ! (fila - 1)) COL_CODIGO)"
    have body: "procesar_fila osp fs ruta_base ws fila (ws_cell_value ws fila COL_CODIGO) =
        (?ws', ?ev)"
      using f by (rule procesar_fila_eq)
    have ih: "length (fst (procesar_hoja_desde osp fs ruta_base ?ws' (fila + 1))) = length ?ws' \<and>
        (\<forall>i. i + 1 < fila + 1 \<longrightarrow>
           fst (procesar_hoja_desde osp fs ruta_base ?ws' (fila + 1)) ! i = ?ws' ! i)"
      using "1.IH" [of ?ws' ?ev] True body by simp
    have eq: "fst (procesar_hoja_desde osp fs ruta_base ws fila) =
        fst (procesar_hoja_desde osp fs ruta_base ?ws' (fila + 1))"
      by (subst procesar_hoja_desde.simps) (simp add: True body split: prod.splits)
    show ?thesis
      unfolding eq using ih by auto
  qed
qed

lemma procesar_hoja_desde_fila:
  assumes "1 \<le> fila" "fila \<le> k" "alcanzada ws fila k"
    and "py_truthy (ws_cell_value ws k COL_CODIGO)"
  shows "fst (procesar_hoja_desde osp fs ruta_base ws fila) ! (k - 1) =
           fila_procesada osp fs ruta_base (ws ! (k - 1))"
    and "evento_fila osp fs ruta_base k (celda (ws ! (k - 1)) COL_CODIGO)
           \<in> set (snd (procesar_hoja_desde osp fs ruta_base ws fila))"
proof -
  let ?g = "fila_procesada osp fs ruta_base"
  have k: "1 \<le> k" "k \<le> length ws"
    using assms(4) truthy_cell_in_sheet by blast+
  have a: "alcanzada ws fila (Suc k)"
    using assms by (simp add: alcanzada_Suc)
  have le: "fila \<le> Suc k" using assms(2) by simp
  note M = procesar_hoja_desde_llegar [OF assms(1) le a, of osp fs ruta_base]
  have "fst (procesar_hoja_desde osp fs ruta_base ws fila) ! (k - 1) =
      fst (procesar_hoja_desde osp fs ruta_base (hoja_al_llegar ?g ws fila (Suc k)) (Suc k)) ! (k - 1)"
    unfolding M by (simp split: prod.splits)
  also have "\<dots> = hoja_al_llegar ?g ws fila (Suc k) ! (k - 1)"
    using procesar_hoja_desde_frame [of osp fs ruta_base "hoja_al_llegar ?g ws fila (Suc k)" "Suc k"] k
    by simp
  also have "\<dots> = ?g (ws ! (k - 1))"
    using k assms(2) by (simp add: nth_hoja_al_llegar)
  finally show "fst (procesar_hoja_desde osp fs ruta_base ws fila) ! (k - 1) = ?g (ws ! (k - 1))" .
  have "k \<in> set [fila..<Suc k]" using assms(2) by simp
  then show "evento_fila osp fs ruta_base k (celda (ws ! (k - 1)) COL_CODIGO)
      \<in> set (snd (procesar_hoja_desde osp fs ruta_base ws fila))"
    unfolding M by (auto split: prod.splits)
qed

lemma procesar_fila_v1_eq:
  assumes "1 \<le> fila" "fila \<le> length ws"
  shows "procesar_fila_v1 osp fs ws fila (ws_cell_value ws fila COL_CODIGO) =
     (ws[fila - 1 := fila_enlazada osp (ws ! (fila - 1))],
      evento_fila_v1 osp fs fila (celda (ws ! (fila - 1)) COL_CODIGO))"
proof -
  have v: "ws_cell_value ws fila COL_CODIGO = celda (ws ! (fila - 1)) COL_CODIGO"
    using assms by (rule ws_cell_value_celda)
  show ?thesis
    unfolding v procesar_fila_v1_def fila_enlazada_def evento_fila_v1_def ruta_absoluta_v1_def
      Let_def
    by (simp add: foldl_ws_cell_set_row [OF assms])
qed

lemma procesar_hoja_v1_desde_paso:
  assumes "1 \<le> fila" "fila \<le> n" "py_truthy (ws_cell_value ws n COL_CODIGO)"
  shows "procesar_hoja_v1_desde osp fs
           (hoja_al_llegar (fila_enlazada osp) ws fila n) n =
     (case procesar_hoja_v1_desde osp fs
             (hoja_al_llegar (fila_enlazada osp) ws fila (Suc n)) (Suc n) of
        (w, evs) \<Rightarrow>
          (w, evento_fila_v1 osp fs n (celda (ws ! (n - 1)) COL_CODIGO) # evs))"
proof -
  let ?g = "fila_enlazada osp"
  let ?H = "hoja_al_llegar ?g ws fila n"
  have n: "1 \<le> n" "n \<le> length ws"
    using assms(3) truthy_cell_in_sheet by blast+
  have nH: "n \<le> length ?H" using n by (simp add: length_hoja_al_llegar)
  have row: "?H ! (n - 1) = ws ! (n - 1)"
    using n by (simp add: nth_hoja_al_llegar)
  have cod: "ws_cell_value ?H n COL_CODIGO = ws_cell_value ws n COL_CODIGO"
    using n by (rule celda_codigo_al_llegar)
  have body: "procesar_fila_v1 osp fs ?H n (ws_cell_value ?H n COL_CODIGO) =
      (hoja_al_llegar ?g ws fila (Suc n),
       evento_fila_v1 osp fs n (celda (ws ! (n - 1)) COL_CODIGO))"
    using procesar_fila_v1_eq [OF n(1) nH, of osp fs]
      hoja_al_llegar_paso [OF assms(1,2) n(2), of ?g] row by simp
  have t: "py_truthy (ws_cell_value ?H n COL_CODIGO)"
    using cod assms(3) by simp
  show ?thesis
    by (subst procesar_hoja_v1_desde.simps) (simp add: t body)
qed

lemma procesar_hoja_v1_desde_llegar:
  assumes "1 \<le> fila" "fila \<le> k" "alcanzada ws fila k"
  shows "procesar_hoja_v1_desde osp fs ws fila =
     (case procesar_hoja_v1_desde osp fs
             (hoja_al_llegar (fila_enlazada osp) ws fila k) k of
        (w, evs) \<Rightarrow>
          (w, map (\<lambda>j. evento_fila_v1 osp fs j (celda (ws ! (j - 1)) COL_CODIGO))
                [fila..<k] @ evs))"
  using assms(2,3)
proof (induct k rule: dec_induct)
  case base
  show ?case by (simp add: hoja_al_llegar_inicio split: prod.splits)
next
  case (step n)
  from step.prems step.hyps(1) have a: "alcanzada ws fila n"
    and t: "py_truthy (ws_cell_value ws n COL_CODIGO)"
    by (simp_all add: alcanzada_Suc)
  have up: "[fila..<Suc n] = [fila..<n] @ [n]"
    using step.hyps(1) by simp
  show ?case
    unfolding step.hyps(3) [OF a] procesar_hoja_v1_desde_paso [OF assms(1) step.hyps(1) t] up
    by (simp split: prod.splits)
qed

lemma procesar_hoja_v1_desde_fin:
  assumes "1 \<le> fila" "fila \<le> k" "alcanzada ws fila k"
    and "\<not> py_truthy (ws_cell_value ws k COL_CODIGO)"
  shows "procesar_hoja_v1_desde osp fs ws fila =
     (hoja_al_llegar (fila_enlazada osp) ws fila k,
      map (\<lambda>j. evento_fila_v1 osp fs j (celda (ws ! (j - 1)) COL_CODIGO)) [fila..<k])"
proof -
  have "procesar_hoja_v1_desde osp fs
          (hoja_al_llegar (fila_enlazada osp) ws fila k) k =
      (hoja_al_llegar (fila_enlazada osp) ws fila k, [])"
    by (subst procesar_hoja_v1_desde.simps) (simp add: celda_codigo_al_llegar_gen assms(4))
  then show ?thesis
    using procesar_hoja_v1_desde_llegar [OF assms(1,2,3), of osp fs] by simp
qed

lemma procesar_hoja_v1_desde_frame:
  "length (fst (procesar_hoja_v1_desde osp fs ws fila)) = length ws \<and>
   (\<forall>i. i + 1 < fila \<longrightarrow> fst (procesar_hoja_v1_desde osp fs ws fila) ! i = ws ! i)"
proof (induction osp fs ws fila rule: procesar_hoja_v1_desde.induct)
  case (1 osp fs ws fila)
  show ?case
  proof (cases "py_truthy (ws_cell_value ws fila COL_CODIGO)")
    case False
    then show ?thesis by (subst procesar_hoja_v1_desde.simps, simp)+
  next
    case True
    then have f: "1 \<le> fila" "fila \<le> length ws"
      using truthy_cell_in_sheet by blast+
    let ?ws' = "ws[fila - 1 := fila_enlazada osp (ws ! (fila - 1))]"
    let ?ev = "evento_fila_v1 osp fs fila (celda (ws ! (fila - 1)) COL_CODIGO)"
    have body: "procesar_fila_v1 osp fs ws fila (ws_cell_value ws fila COL_CODIGO) =
        (?ws', ?ev)"
      using f by (rule procesar_fila_v1_eq)
    have ih: "length (fst (procesar_hoja_v1_desde osp fs ?ws' (fila + 1))) = length ?ws' \<and>
        (\<forall>i. i + 1 < fila + 1 \<longrightarrow>
           fst (procesar_hoja_v1_desde osp fs ?ws' (fila + 1)) ! i = ?ws' ! i)"
      using "1.IH" [of ?ws' ?ev] True body by simp
    have eq: "fst (procesar_hoja_v1_desde osp fs ws fila) =
        fst (procesar_hoja_v1_desde osp fs ?ws' (fila + 1))"
      by (subst procesar_hoja_v1_desde.simps) (simp add: True body split: prod.splits)
    show ?thesis
      unfolding eq using ih by auto
  qed
qed

lemma procesar_hoja_v1_desde_fila:
  assumes "1 \<le> fila" "fila \<le> k" "alcanzada ws fila k"
    and "py_truthy (ws_cell_value ws k COL_CODIGO)"
  shows "fst (procesar_hoja_v1_desde osp fs ws fila) ! (k - 1) =
           fila_enlazada osp (ws ! (k - 1))"
    and "evento_fila_v1 osp fs k (celda (ws ! (k - 1)) COL_CODIGO)
           \<in> set (snd (procesar_hoja_v1_desde osp fs ws fila))"
proof -
  let ?g = "fila_enlazada osp"
  have k: "1 \<le> k" "k \<le> length ws"
    using assms(4) truthy_cell_in_sheet by blast+
  have a: "alcanzada ws fila (Suc k)"
    using assms by (simp add: alcanzada_Suc)
  have le: "fila \<le> Suc k" using assms(2) by simp
  note M = procesar_hoja_v1_desde_llegar [OF assms(1) le a, of osp fs]
  have "fst (procesar_hoja_v1_desde osp fs ws fila) ! (k - 1) =
      fst (procesar_hoja_v1_desde osp fs (hoja_al_llegar ?g ws fila (Suc k)) (Suc k)) ! (k - 1)"
    unfolding M by (simp split: prod.splits)
  also have "\<dots> = hoja_al_llegar ?g ws fila (Suc k) ! (k - 1)"
    using procesar_hoja_v1_desde_frame [of osp fs "hoja_al_llegar ?g ws fila (Suc k)" "Suc k"] k
    by simp
  also have "\<dots> = ?g (ws ! (k - 1))"
    using k assms(2) by (simp add: nth_hoja_al_llegar)
  finally show "fst (procesar_hoja_v1_desde osp fs ws fila) ! (k - 1) = ?g (ws ! (k - 1))" .
  have "k \<in> set [fila..<Suc k]" using assms(2) by simp
  then show "evento_fila_v1 osp fs k (celda (ws ! (k - 1)) COL_CODIGO)
      \<in> set (snd (procesar_hoja_v1_desde osp fs ws fila))"
    unfolding M by (auto split: prod.splits)
qed

lemma celda_fila_escrita:
  "1 \<le> c \<Longrightarrow>
   celda (fila_escrita row c v) j = (if j = c \<and> v \<noteq> PNone then v else celda row j)"
  by (cases v) (simp_all add: fila_escrita_def celda_asignar)

lemma celda_foldl_fila_escrita:
  "distinct (map (\<lambda>(a, b). f a) xs) \<Longrightarrow> \<forall>(a, b) \<in> set xs. 1 \<le> f a \<Longrightarrow>
   celda (foldl (\<lambda>row (a, b). fila_escrita row (f a) (g b)) row xs) j =
     (case map_of (map (\<lambda>(a, b). (f a, b)) xs) j of
        Some b \<Rightarrow> (if g b = PNone then celda row j else g b)
      | None \<Rightarrow> celda row j)"
proof (induction xs arbitrary: row)
  case Nil
  then show ?case by simp
next
  case (Cons x xs)
  obtain a b where x: "x = (a, b)" by (cases x)
  from Cons.prems x have d: "distinct (map (\<lambda>(a, b). f a) xs)"
    and nin: "f a \<notin> (\<lambda>(a, b). f a) ` set xs"
    and ge: "\<forall>(a, b) \<in> set xs. 1 \<le> f a" and c1: "1 \<le> f a"
    by auto
  have ih: "celda (foldl (\<lambda>row (a, b). fila_escrita row (f a) (g b))
                    (fila_escrita row (f a) (g b)) xs) j =
      (case map_of (map (\<lambda>(a, b). (f a, b)) xs) j of
         Some b' \<Rightarrow> (if g b' = PNone then celda (fila_escrita row (f a) (g b)) j else g b')
       | None \<Rightarrow> celda (fila_escrita row (f a) (g b)) j)"
    by (rule Cons.IH [OF d ge])
  show ?case
  proof (cases "j = f a")
    case True
    have "fst ` set (map (\<lambda>(a, b). (f a, b)) xs) = (\<lambda>(a, b). f a) ` set xs"
      by force
    then have "map_of (map (\<lambda>(a, b). (f a, b)) xs) j = None"
      using nin True by (simp add: map_of_eq_None_iff)
    then show ?thesis
      using ih x True celda_fila_escrita [OF c1, of row "g b" j] by simp
  next
    case False
    then show ?thesis
      using ih x celda_fila_escrita [OF c1, of row "g b" j] by (simp split: option.splits)
  qed
qed

lemma COLUMNAS_DESTINO_indices:
  "map (\<lambda>(a, b). (column_index_from_string a, b)) COLUMNAS_DESTINO = COL_INDICES_DESTINO"
  by (simp add: COL_INDICES_DESTINO_def)

lemma COLUMNAS_DESTINO_V1_indices:
  "map (\<lambda>(a, b). (column_index_from_string a, b)) COLUMNAS_DESTINO_V1 =
     [(6, lit ''$N$21''), (7, lit ''$N$25''), (9, lit ''$N$49''), (11, lit ''$N$153''),
      (13, lit ''$N$161'')]"
  by (simp add: COLUMNAS_DESTINO_V1_def column_index_from_string_def lit_def)

lemma celda_fila_procesada_Legible:
  assumes "fs (os_join osp ruta_base (py_strip (py_str (celda row COL_CODIGO)) @ lit ''.xlsx''))
             = Legible wb"
  shows "celda (fila_procesada osp fs ruta_base row) j =
     (case map_of COL_INDICES_DESTINO j of
        Some ref \<Rightarrow> (if cargar_valor wb ref = PNone then celda row j else cargar_valor wb ref)
      | None \<Rightarrow> celda row j)"
proof -
  have "celda (foldl (\<lambda>row (a, b). fila_escrita row (column_index_from_string a) (cargar_valor wb b))
                 row COLUMNAS_DESTINO) j =
      (case map_of (map (\<lambda>(a, b). (column_index_from_string a, b)) COLUMNAS_DESTINO) j of
         Some b \<Rightarrow> (if cargar_valor wb b = PNone then celda row j else cargar_valor wb b)
       | None \<Rightarrow> celda row j)"
    by (rule celda_foldl_fila_escrita)
      (simp_all add: COLUMNAS_DESTINO_def column_index_from_string_def lit_def)
  then show ?thesis
    using assms by (simp add: fila_procesada_def COLUMNAS_DESTINO_indices)
qed

lemma celda_fila_enlazada:
  "celda (fila_enlazada osp row) j =
     (case map_of (map (\<lambda>(a, b). (column_index_from_string a, b)) COLUMNAS_DESTINO_V1) j of
        Some ref \<Rightarrow>
          PStr (formula_enlace
                  (path_para_formula osp
                     (os_dirname osp (ruta_absoluta_v1 osp (celda row COL_CODIGO))))
                  (os_basename osp (ruta_absoluta_v1 osp (celda row COL_CODIGO))) ref)
      | None \<Rightarrow> celda row j)"
proof -
  let ?g = "\<lambda>ref. PStr (formula_enlace
                  (path_para_formula osp
                     (os_dirname osp (ruta_absoluta_v1 osp (celda row COL_CODIGO))))
                  (os_basename osp (ruta_absoluta_v1 osp (celda row COL_CODIGO))) ref)"
  have "celda (foldl (\<lambda>row (a, b). fila_escrita row (column_index_from_string a) (?g b))
                 row COLUMNAS_DESTINO_V1) j =
      (case map_of (map (\<lambda>(a, b). (column_index_from_string a, b)) COLUMNAS_DESTINO_V1) j of
         Some b \<Rightarrow> (if ?g b = PNone then celda row j else ?g b)
       | None \<Rightarrow> celda row j)"
    by (rule celda_foldl_fila_escrita)
      (simp_all add: COLUMNAS_DESTINO_V1_def column_index_from_string_def lit_def)
  then show ?thesis
    by (simp add: fila_enlazada_def Let_def split: option.splits)
qed

section \<open>Exit codes\<close>

lemma main_en_memoria_exit: "codigo_salida (main_en_memoria procesar env) = 0"
  by (simp add: main_en_memoria_def split: sum.splits prod.splits option.splits)

text \<open>
  C8, as the code has it. The in-place scripts end with exit code 0 on every path, the
  fatal ones included: they never call \<open>sys.exit\<close>. The streaming script, once the
  master file exists, ends with exit code 1 exactly when loading the master raises, when
  processing a sheet raises, or when saving the output raises, and with 0 otherwise.
\<close>

theorem C8_exit_codes:
  "codigo_salida (main_base osp env) = 0 \<and> codigo_salida (main_v10 osp env) = 0 \<and>
   (maestro_existe env \<longrightarrow>
      (codigo_salida (main_v02 osp env) = 1 \<or> codigo_salida (main_v02 osp env) = 0) \<and>
      (codigo_salida (main_v02 osp env) = 1 \<longleftrightarrow>
         (case cargar_maestro env of
            Inl e \<Rightarrow> True
          | Inr wb \<Rightarrow>
              isl (procesar_hojas_stream osp (archivos env) (getcwd env) wb HOJAS_OBJETIVO [] [])
              \<or> error_al_guardar env \<noteq> None)))"
  by (auto simp: main_base_def main_v10_def main_en_memoria_exit main_v02_def
      split: sum.splits prod.splits option.splits)

theorem C8_exit_codes_witness:
  "maestro_existe entorno_maestro_ilegible \<and>
   codigo_salida (main_v02 (posixpath (lit ''/datos'')) entorno_maestro_ilegible) = 1 \<and>
   codigo_salida (main_base (posixpath (lit ''/datos'')) entorno_maestro_ilegible) = 0"
  using C8_exit_codes [of "posixpath (lit ''/datos'')" entorno_maestro_ilegible]
  by (simp add: entorno_maestro_ilegible_def)

text \<open>
  C8 as stated fails: with no master file, a fatal path, the in-place scripts end with
  exit code 0.
\<close>

theorem C8_missing_master_counterexample:
  "\<not> maestro_existe entorno_sin_maestro \<and>
   codigo_salida (main_base (posixpath (lit ''/datos'')) entorno_sin_maestro) = 0 \<and>
   codigo_salida (main_v10 (posixpath (lit ''/datos'')) entorno_sin_maestro) = 0"
  by (simp add: main_base_def main_v10_def main_en_memoria_def entorno_sin_maestro_def)

section \<open>Streaming mode: one output row for each source row\<close>

lemma filas_con_codigo_nth:
  assumes "list_all (\<lambda>row. COL_CODIGO \<le> length row) (drop (FILA_INICIO_DATOS - 1) ws)"
  shows "\<forall>i < length ws. FILA_INICIO_DATOS \<le> 0 + i + 1 \<longrightarrow> COL_CODIGO \<le> length (ws ! i)"
proof (intro allI impI)
  fix i assume i: "i < length ws" "FILA_INICIO_DATOS \<le> 0 + i + 1"
  then have "i - (FILA_INICIO_DATOS - 1) < length (drop (FILA_INICIO_DATOS - 1) ws)"
    by simp
  with assms have "COL_CODIGO \<le> length (drop (FILA_INICIO_DATOS - 1) ws ! (i - (FILA_INICIO_DATOS - 1)))"
    by (simp only: list_all_length)
  then show "COL_CODIGO \<le> length (ws ! i)"
    using i by simp
qed

text \<open>
  On a sheet whose data rows all have a cell in column D, the loop of the streaming
  script over the rows of a target sheet ends normally, and appends to the output sheet
  exactly one row for each source row, in the order of the source: the output row at
  position \<open>i\<close> is the row that the loop body makes of the source row at position
  \<open>i\<close>, whether it is a header row, a row with an empty code, or a row whose file
  exists, is missing or does not load.
\<close>

lemma filas_stream_una_por_fila:
  assumes "list_all (\<lambda>row. COL_CODIGO \<le> length row) (drop (FILA_INICIO_DATOS - 1) ws_lectura)"
  shows "\<exists>out evs.
     procesar_filas_stream osp fs ruta_base 0 ws_lectura ws_salida registro =
       Inr (ws_salida @ out, registro @ evs) \<and>
     length out = length ws_lectura \<and>
     (\<forall>i < length ws_lectura. \<exists>e.
        procesar_fila_stream osp fs ruta_base i (ws_lectura ! i) = Inr (out ! i, e))"
  using filas_stream_ok [OF filas_con_codigo_nth [OF assms], of osp fs ruta_base ws_salida registro]
  by simp

lemma filas_stream_una_por_fila_ejemplo:
  "list_all (\<lambda>row. COL_CODIGO \<le> length row) (drop (FILA_INICIO_DATOS - 1) ejemplo_hoja) \<and>
   (\<exists>out evs.
     procesar_filas_stream ejemplo_osp ejemplo_fs (lit ''/datos'') 0 ejemplo_hoja [] [] =
       Inr ([] @ out, [] @ evs) \<and>
     length out = length ejemplo_hoja \<and>
     (\<forall>i < length ejemplo_hoja. \<exists>e.
        procesar_fila_stream ejemplo_osp ejemplo_fs (lit ''/datos'') i (ejemplo_hoja ! i) =
          Inr (out ! i, e)))"
proof -
  have h: "list_all (\<lambda>row. COL_CODIGO \<le> length row) (drop (FILA_INICIO_DATOS - 1) ejemplo_hoja)"
    by (simp add: ejemplo_hoja_def fila_con_codigo_def COL_CODIGO_def FILA_INICIO_DATOS_def)
  from filas_stream_una_por_fila [OF h, of ejemplo_osp ejemplo_fs "lit ''/datos''" "[]" "[]"] h
  show ?thesis by simp
qed

section \<open>Extraction and row length\<close>

lemma ejemplo_join:
  "os_join ejemplo_osp (lit ''/datos'') (lit ''A100'' @ lit ''.xlsx'') = lit ''/datos/A100.xlsx''"
  "os_join ejemplo_osp (lit ''/datos'') (lit ''B200'' @ lit ''.xlsx'') = lit ''/datos/B200.xlsx''"
  "os_join ejemplo_osp (lit ''/datos'') (lit ''C300'' @ lit ''.xlsx'') = lit ''/datos/C300.xlsx''"
  by (simp_all add: ejemplo_osp_def posixpath_def posix_join_def py_startswith_def
      py_endswith_def lit_def)

lemma ejemplo_strip:
  "py_strip (lit ''A100'') = lit ''A100''"
  "py_strip (lit ''B200'') = lit ''B200''"
  "py_strip (lit ''C300'') = lit ''C300''"
  by (simp_all add: py_strip_def is_space_def lit_def)

lemma ejemplo_fs_eval:
  "ejemplo_fs (lit ''/datos/A100.xlsx'') = Legible libro_A100"
  "ejemplo_fs (lit ''/datos/B200.xlsx'') = NoExiste"
  "ejemplo_fs (lit ''/datos/C300.xlsx'') = Ilegible (Excepcion (lit ''BadZipFile''))"
  by (simp_all add: ejemplo_fs_def lit_def)

lemma libro_A100_eval:
  "cargar_valor libro_A100 (lit ''N21'') = PInt 42"
  "cargar_valor libro_A100 (lit ''N25'') = PStr (lit ''ok'')"
  "cargar_valor libro_A100 (lit ''N49'') = PNone"
  "cargar_valor libro_A100 (lit ''N153'') = PNone"
  "cargar_valor libro_A100 (lit ''N161'') = PNone"
  by (simp_all add: cargar_valor_def libro_A100_def lit_def)

lemma copiar_valores_A100:
  "copiar_valores libro_A100 (fila_con_codigo v) =
     [PNone, PNone, PNone, v, PNone, PInt 42, PStr (lit ''ok''), PNone,
      PNone, PNone, PNone, PNone, PNone]"
  by (simp add: copiar_valores_def COL_INDICES_DESTINO_eq libro_A100_eval asignar_def eval_nat_numeral
      fila_con_codigo_def)

lemma procesar_hoja_celda:
  assumes "FILA_INICIO \<le> k" "alcanzada ws FILA_INICIO k"
    and "py_truthy (ws_cell_value ws k COL_CODIGO)"
  shows "ws_cell_value (fst (procesar_hoja osp fs ruta_base ws)) k c =
     celda (fila_procesada osp fs ruta_base (ws ! (k - 1))) c"
proof -
  have k: "1 \<le> k" "k \<le> length ws"
    using assms(3) truthy_cell_in_sheet by blast+
  have f: "1 \<le> FILA_INICIO" by (simp add: FILA_INICIO_def)
  have len: "length (fst (procesar_hoja osp fs ruta_base ws)) = length ws"
    using procesar_hoja_desde_frame [of osp fs ruta_base ws FILA_INICIO]
    by (simp add: procesar_hoja_def)
  have "fst (procesar_hoja osp fs ruta_base ws) ! (k - 1) =
      fila_procesada osp fs ruta_base (ws ! (k - 1))"
    unfolding procesar_hoja_def by (rule procesar_hoja_desde_fila(1) [OF f assms])
  then show ?thesis
    using k len by (simp add: ws_cell_value_celda)
qed

lemma procesar_hoja_v1_celda:
  assumes "FILA_INICIO \<le> k" "alcanzada ws FILA_INICIO k"
    and "py_truthy (ws_cell_value ws k COL_CODIGO)"
  shows "ws_cell_value (fst (procesar_hoja_v1 osp fs ws)) k c =
     celda (fila_enlazada osp (ws ! (k - 1))) c"
proof -
  have k: "1 \<le> k" "k \<le> length ws"
    using assms(3) truthy_cell_in_sheet by blast+
  have f: "1 \<le> FILA_INICIO" by (simp add: FILA_INICIO_def)
  have len: "length (fst (procesar_hoja_v1 osp fs ws)) = length ws"
    using procesar_hoja_v1_desde_frame [of osp fs ws FILA_INICIO]
    by (simp add: procesar_hoja_v1_def)
  have "fst (procesar_hoja_v1 osp fs ws) ! (k - 1) = fila_enlazada osp (ws ! (k - 1))"
    unfolding procesar_hoja_v1_def by (rule procesar_hoja_v1_desde_fila(1) [OF f assms])
  then show ?thesis
    using k len by (simp add: ws_cell_value_celda)
qed

lemma fila_con_codigo_simps:
  "length (fila_con_codigo v) = 9"
  "fila_con_codigo v ! (COL_CODIGO - 1) = v"
  "fila_con_codigo v ! 3 = v"
  "celda (fila_con_codigo v) COL_CODIGO = v"
  "celda (fila_con_codigo v) 9 = PInt 7"
  "celda (fila_con_codigo v) 6 = PNone"
  by (simp_all add: fila_con_codigo_def COL_CODIGO_def celda_def)

lemma ejemplo_hoja_filas:
  "length ejemplo_hoja = 10"
  "ejemplo_hoja ! 5 = fila_con_codigo (PStr (lit ''A100''))"
  "ejemplo_hoja ! 6 = fila_con_codigo (PStr (lit ''B200''))"
  "ejemplo_hoja ! 7 = fila_con_codigo (PStr (lit ''C300''))"
  "ejemplo_hoja ! 8 = fila_con_codigo PNone"
  "ejemplo_hoja ! 9 = fila_con_codigo (PStr (lit ''A100''))"
  by (simp_all add: ejemplo_hoja_def)

lemma ejemplo_codigos:
  "ws_cell_value ejemplo_hoja 6 COL_CODIGO = PStr (lit ''A100'')"
  "ws_cell_value ejemplo_hoja 7 COL_CODIGO = PStr (lit ''B200'')"
  "ws_cell_value ejemplo_hoja 8 COL_CODIGO = PStr (lit ''C300'')"
  "ws_cell_value ejemplo_hoja 9 COL_CODIGO = PNone"
  by (simp_all add: ws_cell_value_celda ejemplo_hoja_filas fila_con_codigo_simps)

lemma lit_no_vacio: "lit ''A100'' \<noteq> []" "lit ''B200'' \<noteq> []" "lit ''C300'' \<noteq> []"
  by (simp_all add: lit_def)

lemma ejemplo_alcanzada:
  "alcanzada ejemplo_hoja FILA_INICIO 6"
  "alcanzada ejemplo_hoja FILA_INICIO 7"
  "alcanzada ejemplo_hoja FILA_INICIO 8"
  "alcanzada ejemplo_hoja FILA_INICIO 9"
proof -
  show a6: "alcanzada ejemplo_hoja FILA_INICIO 6"
    by (simp add: alcanzada_def FILA_INICIO_def)
  have f: "FILA_INICIO \<le> 6" "FILA_INICIO \<le> 7" "FILA_INICIO \<le> 8"
    by (simp_all add: FILA_INICIO_def)
  have s: "Suc 6 = 7" "Suc 7 = 8" "Suc 8 = 9" by simp_all
  show a7: "alcanzada ejemplo_hoja FILA_INICIO 7"
    using alcanzada_Suc [OF f(1), of ejemplo_hoja] a6 unfolding s
    by (simp add: ejemplo_codigos lit_no_vacio)
  show a8: "alcanzada ejemplo_hoja FILA_INICIO 8"
    using alcanzada_Suc [OF f(2), of ejemplo_hoja] a7 unfolding s
    by (simp add: ejemplo_codigos lit_no_vacio)
  show "alcanzada ejemplo_hoja FILA_INICIO 9"
    using alcanzada_Suc [OF f(3), of ejemplo_hoja] a8 unfolding s
    by (simp add: ejemplo_codigos lit_no_vacio)
qed

lemma ejemplo_fila_6_legible:
  "ejemplo_fs (os_join ejemplo_osp (lit ''/datos'')
      (py_strip (py_str (celda (ejemplo_hoja ! (6 - 1)) COL_CODIGO)) @ lit ''.xlsx''))
     = Legible libro_A100"
  by (simp add: ejemplo_hoja_filas fila_con_codigo_simps ejemplo_strip ejemplo_join ejemplo_fs_eval)

lemma map_of_indices:
  "map_of COL_INDICES_DESTINO 6 = Some (lit ''N21'')"
  "map_of COL_INDICES_DESTINO 9 = Some (lit ''N49'')"
  by (simp_all add: COL_INDICES_DESTINO_eq)

text \<open>
  C1 at a failing input. Row 6 of the example sheet has the code A100 and an old value 7
  in column I; \<open>A100.xlsx\<close> exists and loads, and its cell N49, the source of column I,
  is empty, so the value read is \<open>None\<close>. In the in-place script column I still holds
  7 after the row is processed (\<open>ws.cell(..., value=None)\<close> assigns nothing), while
  column F holds the 42 read from N21. The streaming script writes \<open>None\<close> into
  column I of the same row.
\<close>

theorem C1_in_place_keeps_old_value:
  "ejemplo_fs (lit ''/datos/A100.xlsx'') = Legible libro_A100 \<and>
   cargar_valor libro_A100 (lit ''N49'') = PNone \<and>
   ws_cell_value ejemplo_hoja 6 9 = PInt 7 \<and>
   ws_cell_value (fst (procesar_hoja ejemplo_osp ejemplo_fs (lit ''/datos'') ejemplo_hoja)) 6 9
     = PInt 7 \<and>
   ws_cell_value (fst (procesar_hoja ejemplo_osp ejemplo_fs (lit ''/datos'') ejemplo_hoja)) 6 6
     = PInt 42 \<and>
   procesar_fila_stream ejemplo_osp ejemplo_fs (lit ''/datos'') 5 (ejemplo_hoja ! 5) =
     Inr ([PNone, PNone, PNone, PStr (lit ''A100''), PNone, PInt 42, PStr (lit ''ok''), PNone,
           PNone, PNone, PNone, PNone, PNone],
          [(6, lit ''A100'', Copiado)])"
proof -
  have t: "py_truthy (ws_cell_value ejemplo_hoja 6 COL_CODIGO)"
    by (simp add: ejemplo_codigos lit_no_vacio)
  have f: "FILA_INICIO \<le> 6" by (simp add: FILA_INICIO_def)
  note cel = procesar_hoja_celda [OF f ejemplo_alcanzada(1) t, of ejemplo_osp ejemplo_fs "lit ''/datos''"]
  note row = celda_fila_procesada_Legible [where fs = ejemplo_fs and osp = ejemplo_osp
      and ruta_base = "lit ''/datos''" and row = "ejemplo_hoja ! (6 - 1)" and wb = libro_A100,
      OF ejemplo_fila_6_legible]
  have c9: "ws_cell_value (fst (procesar_hoja ejemplo_osp ejemplo_fs (lit ''/datos'') ejemplo_hoja)) 6 9
      = PInt 7"
    unfolding cel row
    by (simp add: map_of_indices libro_A100_eval ejemplo_hoja_filas fila_con_codigo_simps)
  have c6: "ws_cell_value (fst (procesar_hoja ejemplo_osp ejemplo_fs (lit ''/datos'') ejemplo_hoja)) 6 6
      = PInt 42"
    unfolding cel row
    by (simp add: map_of_indices libro_A100_eval)
  have old: "ws_cell_value ejemplo_hoja 6 9 = PInt 7"
    by (simp add: ws_cell_value_celda ejemplo_hoja_filas fila_con_codigo_simps)
  have st: "procesar_fila_stream ejemplo_osp ejemplo_fs (lit ''/datos'') 5 (ejemplo_hoja ! 5) =
     Inr ([PNone, PNone, PNone, PStr (lit ''A100''), PNone, PInt 42, PStr (lit ''ok''), PNone,
           PNone, PNone, PNone, PNone, PNone],
          [(6, lit ''A100'', Copiado)])"
    by (simp add: procesar_fila_stream_def FILA_INICIO_DATOS_def ejemplo_hoja_filas
        fila_con_codigo_simps lit_no_vacio ejemplo_strip ejemplo_join ejemplo_fs_eval
        copiar_valores_A100 COL_CODIGO_def Let_def)
  show ?thesis
    using c9 c6 old st by (simp add: ejemplo_fs_eval libro_A100_eval)
qed

lemma hoja_corta_stream:
  "procesar_filas_stream ejemplo_osp ejemplo_fs (lit ''/datos'') 0 hoja_corta [] [] = Inl IndexError"
  by (simp add: hoja_corta_def procesar_fila_stream_def FILA_INICIO_DATOS_def COL_CODIGO_def)

text \<open>
  C6 at a failing input. In streaming mode the data row 6 of a sheet three columns wide
  makes \<open>row_data[COL_CODIGO - 1]\<close> raise \<open>IndexError\<close>: the loop over the sheet
  stops, no workbook is saved and the process ends with exit code 1. (A row that does
  reach column D is padded: \<open>length_copiar_valores\<close> and \<open>celda_copiar_valores\<close>
  show the padding up to column M with empty cells.)
\<close>

theorem C6_short_row_raises:
  "procesar_fila_stream ejemplo_osp ejemplo_fs (lit ''/datos'') 5 [PStr (lit ''A100''), PNone, PNone]
     = Inl IndexError \<and>
   procesar_filas_stream ejemplo_osp ejemplo_fs (lit ''/datos'') 0 hoja_corta [] [] = Inl IndexError \<and>
   codigo_salida (main_v02 ejemplo_osp entorno_hoja_corta) = 1 \<and>
   guardado (main_v02 ejemplo_osp entorno_hoja_corta) = None"
proof -
  have "hoja_de [(lit ''EDU'', hoja_corta)] (lit ''EDU'') = Some hoja_corta"
    by (simp add: hoja_de_def)
  then have "procesar_hojas_stream ejemplo_osp ejemplo_fs (lit ''/datos'')
      [(lit ''EDU'', hoja_corta)] HOJAS_OBJETIVO [] [] = Inl IndexError"
    by (simp add: HOJAS_OBJETIVO_def hoja_corta_stream hoja_de_def)
  then show ?thesis
    by (simp add: main_v02_def entorno_hoja_corta_def hoja_corta_stream
        procesar_fila_stream_def FILA_INICIO_DATOS_def COL_CODIGO_def)
qed

section \<open>Empty and blank code cells\<close>

text \<open>
  C9. In the in-place scripts the emptiness test of the code cell is Python truthiness of
  the raw cell value. When the traversal is at a row whose code cell holds \<open>None\<close> (an
  absent cell), the number 0, the float 0.0, \<open>False\<close> or the empty string, the traversal
  ends there: the sheet is as it was and no status line is printed, whatever the files
  are, so no file name is built from such a value. The traversal ends at a row exactly
  when its code cell is falsy.
\<close>

theorem C9_falsy_code_ends_traversal:
  "(ws_cell_value ws fila COL_CODIGO \<in>
      {PNone, PInt 0, PBool False, PStr [], PObj False (lit ''0.0'')} \<longrightarrow>
    procesar_hoja_desde osp fs ruta_base ws fila = (ws, []) \<and>
    procesar_hoja_v1_desde osp fs ws fila = (ws, [])) \<and>
   (procesar_hoja_desde osp fs ruta_base ws fila = (ws, []) \<longleftrightarrow>
      \<not> py_truthy (ws_cell_value ws fila COL_CODIGO)) \<and>
   (procesar_hoja_v1_desde osp fs ws fila = (ws, []) \<longleftrightarrow>
      \<not> py_truthy (ws_cell_value ws fila COL_CODIGO))"
proof -
  have a: "procesar_hoja_desde osp fs ruta_base ws fila = (ws, [])"
    if "\<not> py_truthy (ws_cell_value ws fila COL_CODIGO)"
    using that by (subst procesar_hoja_desde.simps) simp
  have b: "procesar_hoja_v1_desde osp fs ws fila = (ws, [])"
    if "\<not> py_truthy (ws_cell_value ws fila COL_CODIGO)"
    using that by (subst procesar_hoja_v1_desde.simps) simp
  have c: "snd (procesar_hoja_desde osp fs ruta_base ws fila) \<noteq> []"
    if "py_truthy (ws_cell_value ws fila COL_CODIGO)"
    using that by (subst procesar_hoja_desde.simps) (simp split: prod.splits)
  have d: "snd (procesar_hoja_v1_desde osp fs ws fila) \<noteq> []"
    if "py_truthy (ws_cell_value ws fila COL_CODIGO)"
    using that by (subst procesar_hoja_v1_desde.simps) (simp split: prod.splits)
  have e: "\<not> py_truthy v" if "v \<in> {PNone, PInt 0, PBool False, PStr [], PObj False (lit ''0.0'')}"
    for v using that by auto
  show ?thesis
    using a b c d e by (metis snd_conv)
qed

theorem C9_falsy_code_ends_traversal_witness:
  "ws_cell_value [fila_con_codigo (PInt 0)] 1 COL_CODIGO \<in>
      {PNone, PInt 0, PBool False, PStr [], PObj False (lit ''0.0'')} \<and>
   procesar_hoja_desde ejemplo_osp ejemplo_fs (lit ''/datos'') [fila_con_codigo (PInt 0)] 1 =
     ([fila_con_codigo (PInt 0)], []) \<and>
   procesar_hoja_v1_desde ejemplo_osp ejemplo_fs [fila_con_codigo (PInt 0)] 1 =
     ([fila_con_codigo (PInt 0)], [])"
proof -
  have h: "ws_cell_value [fila_con_codigo (PInt 0)] 1 COL_CODIGO = PInt 0"
    by (simp add: ws_cell_value_celda fila_con_codigo_simps)
  show ?thesis
    using C9_falsy_code_ends_traversal [of "[fila_con_codigo (PInt 0)]" 1 ejemplo_osp ejemplo_fs
        "lit ''/datos''"] h
    by simp
qed




lemma fst_evento_fila: "fst (evento_fila osp fs ruta_base j v) = j"
  by (simp add: evento_fila_def)

lemma fst_evento_fila_v1: "fst (evento_fila_v1 osp fs j v) = j"
  by (simp add: evento_fila_v1_def)

lemma celda_al_llegar_despues:
  "k \<le> j \<Longrightarrow> ws_cell_value (hoja_al_llegar g ws fila k) j c = ws_cell_value ws j c"
proof (cases "1 \<le> j \<and> j \<le> length ws")
  case True
  assume kj: "k \<le> j"
  have lt: "j - 1 < length ws" using True by linarith
  have "\<not> (j - 1) + 1 < k" using True kj by linarith
  then have "hoja_al_llegar g ws fila k ! (j - 1) = ws ! (j - 1)"
    using nth_hoja_al_llegar [OF lt, of g fila k] by simp
  then show ?thesis
    using True by (simp add: ws_cell_value_celda length_hoja_al_llegar)
next
  case False
  then show ?thesis by (auto simp add: ws_cell_value_def length_hoja_al_llegar)
qed

lemma fila_stream_sin_codigo:
  assumes "FILA_INICIO_DATOS \<le> r_idx + 1" "COL_CODIGO \<le> length row_data"
    and "\<not> py_truthy (row_data ! (COL_CODIGO - 1))"
  shows "procesar_fila_stream osp fs ruta_base r_idx row_data = Inr (row_data, [])"
  using assms by (simp add: procesar_fila_stream_def Let_def COL_CODIGO_def)

text \<open>
  Let row \<open>k\<close>, at or after the first data row, be the first row of a sheet whose
  code cell is empty, on a sheet whose data rows all have a cell in column D. In the
  in-place scripts the traversal ends at row \<open>k\<close>: status lines are printed for the
  rows before \<open>k\<close> only, and every cell of row \<open>k\<close> and of the rows after it is as
  it was. In the streaming script the same row is appended to the output as it is and
  the traversal goes on: the output has as many rows as the source, each the result of
  the loop body on its source row.
\<close>

lemma codigo_vacio_en_hoja_completa:
  assumes "FILA_INICIO \<le> k" "alcanzada ws FILA_INICIO k"
    and "\<not> py_truthy (ws_cell_value ws k COL_CODIGO)"
    and "k \<le> length ws"
    and "list_all (\<lambda>row. COL_CODIGO \<le> length row) (drop (FILA_INICIO_DATOS - 1) ws)"
  shows "map fst (snd (procesar_hoja osp fs ruta_base ws)) = [FILA_INICIO..<k] \<and>
     (\<forall>j c. k \<le> j \<longrightarrow>
        ws_cell_value (fst (procesar_hoja osp fs ruta_base ws)) j c = ws_cell_value ws j c) \<and>
     map fst (snd (procesar_hoja_v1 osp fs ws)) = [FILA_INICIO..<k] \<and>
     (\<forall>j c. k \<le> j \<longrightarrow>
        ws_cell_value (fst (procesar_hoja_v1 osp fs ws)) j c = ws_cell_value ws j c) \<and>
     (\<exists>out evs.
        procesar_filas_stream osp fs ruta_base 0 ws ws_salida registro =
          Inr (ws_salida @ out, registro @ evs) \<and>
        length out = length ws \<and> out ! (k - 1) = ws ! (k - 1) \<and>
        (\<forall>i < length ws. \<exists>e.
           procesar_fila_stream osp fs ruta_base i (ws ! i) = Inr (out ! i, e)))"
proof -
  have f: "1 \<le> FILA_INICIO" by (simp add: FILA_INICIO_def)
  have k1: "1 \<le> k" using assms(1) f by linarith
  have m: "map fst (map (\<lambda>j. evento_fila osp fs ruta_base j (celda (ws ! (j - 1)) COL_CODIGO))
      [FILA_INICIO..<k]) = [FILA_INICIO..<k]"
    by (simp add: fst_evento_fila comp_def)
  have m1: "map fst (map (\<lambda>j. evento_fila_v1 osp fs j (celda (ws ! (j - 1)) COL_CODIGO))
      [FILA_INICIO..<k]) = [FILA_INICIO..<k]"
    by (simp add: fst_evento_fila_v1 comp_def)
  have a: "map fst (snd (procesar_hoja osp fs ruta_base ws)) = [FILA_INICIO..<k]"
    unfolding procesar_hoja_def procesar_hoja_desde_fin [OF f assms(1,2,3)]
    using m by simp
  have b: "\<forall>j c. k \<le> j \<longrightarrow>
      ws_cell_value (fst (procesar_hoja osp fs ruta_base ws)) j c = ws_cell_value ws j c"
    unfolding procesar_hoja_def procesar_hoja_desde_fin [OF f assms(1,2,3)]
    by (simp add: celda_al_llegar_despues)
  have a1: "map fst (snd (procesar_hoja_v1 osp fs ws)) = [FILA_INICIO..<k]"
    unfolding procesar_hoja_v1_def procesar_hoja_v1_desde_fin [OF f assms(1,2,3)]
    using m1 by simp
  have b1: "\<forall>j c. k \<le> j \<longrightarrow>
      ws_cell_value (fst (procesar_hoja_v1 osp fs ws)) j c = ws_cell_value ws j c"
    unfolding procesar_hoja_v1_def procesar_hoja_v1_desde_fin [OF f assms(1,2,3)]
    by (simp add: celda_al_llegar_despues)
  from filas_stream_ok [OF filas_con_codigo_nth [OF assms(5)],
      of osp fs ruta_base ws_salida registro]
  obtain out evs where o:
    "procesar_filas_stream osp fs ruta_base 0 ws ws_salida registro =
       Inr (ws_salida @ out, registro @ evs)"
    "length out = length ws"
    "\<forall>i < length ws. \<exists>e.
       procesar_fila_stream osp fs ruta_base (0 + i) (ws ! i) = Inr (out ! i, e)"
    by blast
  have km: "k - 1 < length ws" using k1 assms(4) by linarith
  have d: "FILA_INICIO_DATOS \<le> (k - 1) + 1"
    using assms(1) k1 by (simp add: FILA_INICIO_def FILA_INICIO_DATOS_def)
  have len: "COL_CODIGO \<le> length (ws ! (k - 1))"
    using filas_con_codigo_nth [OF assms(5), rule_format, of "k - 1"] km d by simp
  have "ws_cell_value ws k COL_CODIGO = ws ! (k - 1) ! (COL_CODIGO - 1)"
    using k1 assms(4) len by (simp add: ws_cell_value_def COL_CODIGO_def)
  then have nt: "\<not> py_truthy (ws ! (k - 1) ! (COL_CODIGO - 1))"
    using assms(3) by simp
  have "procesar_fila_stream osp fs ruta_base (k - 1) (ws ! (k - 1)) = Inr (ws ! (k - 1), [])"
    using d len nt by (rule fila_stream_sin_codigo)
  moreover obtain e where
    "procesar_fila_stream osp fs ruta_base (k - 1) (ws ! (k - 1)) = Inr (out ! (k - 1), e)"
    using o(3) km by auto
  ultimately have same: "out ! (k - 1) = ws ! (k - 1)" by simp
  have "\<exists>out evs.
        procesar_filas_stream osp fs ruta_base 0 ws ws_salida registro =
          Inr (ws_salida @ out, registro @ evs) \<and>
        length out = length ws \<and> out ! (k - 1) = ws ! (k - 1) \<and>
        (\<forall>i < length ws. \<exists>e.
           procesar_fila_stream osp fs ruta_base i (ws ! i) = Inr (out ! i, e))"
    using o same by auto
  then show ?thesis
    using a b a1 b1 by blast
qed

lemma codigo_vacio_en_hoja_completa_ejemplo:
  "FILA_INICIO \<le> 9 \<and> alcanzada ejemplo_hoja FILA_INICIO 9 \<and>
   \<not> py_truthy (ws_cell_value ejemplo_hoja 9 COL_CODIGO) \<and> 9 \<le> length ejemplo_hoja \<and>
   list_all (\<lambda>row. COL_CODIGO \<le> length row) (drop (FILA_INICIO_DATOS - 1) ejemplo_hoja) \<and>
   map fst (snd (procesar_hoja ejemplo_osp ejemplo_fs (lit ''/datos'') ejemplo_hoja)) = [6, 7, 8] \<and>
   ws_cell_value (fst (procesar_hoja ejemplo_osp ejemplo_fs (lit ''/datos'') ejemplo_hoja)) 10 6
     = PNone \<and>
   (\<exists>out evs.
      procesar_filas_stream ejemplo_osp ejemplo_fs (lit ''/datos'') 0 ejemplo_hoja [] [] =
        Inr (out, evs) \<and>
      length out = 10 \<and> out ! 8 = ejemplo_hoja ! 8)"
proof -
  have h1: "FILA_INICIO \<le> 9" by (simp add: FILA_INICIO_def)
  have h3: "\<not> py_truthy (ws_cell_value ejemplo_hoja 9 COL_CODIGO)"
    by (simp add: ejemplo_codigos)
  have h4: "9 \<le> length ejemplo_hoja" by (simp add: ejemplo_hoja_filas)
  have h5: "list_all (\<lambda>row. COL_CODIGO \<le> length row) (drop (FILA_INICIO_DATOS - 1) ejemplo_hoja)"
    by (simp add: ejemplo_hoja_def fila_con_codigo_def COL_CODIGO_def FILA_INICIO_DATOS_def)
  have u: "[FILA_INICIO..<9] = [6, 7, 8]"
    by (simp add: FILA_INICIO_def upt_rec)
  have c: "ws_cell_value ejemplo_hoja 10 6 = PNone"
    by (simp add: ws_cell_value_celda ejemplo_hoja_filas fila_con_codigo_simps)
  note t = codigo_vacio_en_hoja_completa [OF h1 ejemplo_alcanzada(4) h3 h4 h5,
      of ejemplo_osp ejemplo_fs "lit ''/datos''" "[]" "[]"]
  have s: "\<exists>out evs.
      procesar_filas_stream ejemplo_osp ejemplo_fs (lit ''/datos'') 0 ejemplo_hoja [] [] =
        Inr (out, evs) \<and>
      length out = 10 \<and> out ! 8 = ejemplo_hoja ! 8"
    using t by (auto simp add: ejemplo_hoja_filas)
  have r: "ws_cell_value (fst (procesar_hoja ejemplo_osp ejemplo_fs (lit ''/datos'') ejemplo_hoja)) 10 6
     = PNone"
    using t c by simp
  show ?thesis
    using t h1 ejemplo_alcanzada(4) h3 h4 h5 s r unfolding u by simp
qed

section \<open>Directory and base name of a normalised path\<close>

text \<open>
  What \<open>posixpath\<close> does with the result of \<open>normpath\<close>: the directory, with the
  separator that the link script appends, followed by the base name is the path again,
  and a last component without a separator is the base name.
\<close>

lemma split_sep_no_vacio: "split_sep c s \<noteq> []"
  by (induction s) (auto split: list.splits)

lemma split_sep_sin_sep: "w \<in> set (split_sep c s) \<Longrightarrow> c \<notin> set w"
proof (induction s arbitrary: w)
  case Nil
  then show ?case by simp
next
  case (Cons x xs)
  show ?case
  proof (cases "x = c")
    case True
    then show ?thesis using Cons by auto
  next
    case False
    obtain v vs where s: "split_sep c xs = v # vs"
      using split_sep_no_vacio [of c xs] by (cases "split_sep c xs") auto
    have "c \<notin> set v" using Cons.IH [of v] s by simp
    then show ?thesis using Cons False s by auto
  qed
qed



lemma join_sep_snoc:
  "join_sep s (xs @ [w]) = (if xs = [] then w else join_sep s xs @ s @ w)"
  by (induction s xs rule: join_sep.induct) auto

lemma join_sep_last:
  "xs \<noteq> [] \<Longrightarrow> \<forall>w \<in> set xs. w \<noteq> [] \<Longrightarrow>
     join_sep s xs \<noteq> [] \<and> last (join_sep s xs) = last (last xs)"
  by (induction s xs rule: join_sep.induct) auto

lemma normpath_step_inv:
  assumes "\<forall>w \<in> set acc. w \<noteq> [] \<and> 47 \<notin> set w" "47 \<notin> set cmp"
  shows "\<forall>w \<in> set (normpath_step k acc cmp). w \<noteq> [] \<and> 47 \<notin> set w"
  using assms by (auto simp add: normpath_step_def dest: in_set_butlastD)

lemma foldl_normpath_step_inv:
  assumes "\<forall>w \<in> set acc. w \<noteq> [] \<and> 47 \<notin> set w" "\<forall>w \<in> set cs. 47 \<notin> set w"
  shows "\<forall>w \<in> set (foldl (normpath_step k) acc cs). w \<noteq> [] \<and> 47 \<notin> set w"
  using assms
proof (induction cs arbitrary: acc)
  case Nil
  then show ?case by simp
next
  case (Cons c cs)
  have "\<forall>w \<in> set (normpath_step k acc c). w \<noteq> [] \<and> 47 \<notin> set w"
    using normpath_step_inv [of acc c k] Cons.prems by simp
  then show ?case using Cons.IH [of "normpath_step k acc c"] Cons.prems by simp
qed

lemma posix_basename_append:
  assumes "47 \<notin> set w" "P = [] \<or> last P = 47"
  shows "posix_basename (P @ w) = w"
proof -
  have a: "takeWhile (\<lambda>c. c \<noteq> 47) (rev w @ rev P) = rev w @ takeWhile (\<lambda>c. c \<noteq> 47) (rev P)"
    using assms(1) by (intro takeWhile_append2) auto
  have b: "takeWhile (\<lambda>c. c \<noteq> 47) (rev P) = []"
  proof (cases "P = []")
    case True
    then show ?thesis by simp
  next
    case False
    then have "hd (rev P) = 47" using assms(2) by (simp add: hd_rev)
    then show ?thesis using False by (cases "rev P") auto
  qed
  show ?thesis by (simp add: posix_basename_def a b)
qed

lemma posix_dirname_append:
  assumes "47 \<notin> set w" "P = [] \<or> last P = 47"
  shows "posix_dirname (P @ w) =
     (if P \<noteq> [] \<and> (\<exists>c \<in> set P. c \<noteq> 47) then rev (dropWhile (\<lambda>c. c = 47) (rev P)) else P)"
  by (simp add: posix_dirname_def posix_basename_append [OF assms] Let_def)

lemma os_posixpath:
  "os_sep (posixpath cwd) = [47]"
  "os_join (posixpath cwd) = posix_join"
  "os_abspath (posixpath cwd) = posix_abspath cwd"
  "os_dirname (posixpath cwd) = posix_dirname"
  "os_basename (posixpath cwd) = posix_basename"
  by (simp_all add: posixpath_def lit_def)

lemma py_endswith_uno: "py_endswith P [c] \<longleftrightarrow> P \<noteq> [] \<and> last P = c"
  by (cases P rule: rev_cases) (auto simp add: py_endswith_def)

lemma partes_forma:
  assumes "47 \<notin> set w"
    and "P = [] \<or> P = replicate (Suc k) 47 \<or> (\<exists>Q. P = Q @ [47] \<and> Q \<noteq> [] \<and> last Q \<noteq> 47)"
  shows "path_para_formula (posixpath cwd) (posix_dirname (P @ w)) @ posix_basename (P @ w) = P @ w"
proof -
  have "last (replicate (Suc k) (47::nat)) = 47" by (rule last_replicate) simp
  then have l: "P = [] \<or> last P = 47" using assms(2) by auto
  note b = posix_basename_append [OF assms(1) l]
  note d = posix_dirname_append [OF assms(1) l]
  from assms(2) consider "P = []" | "P = replicate (Suc k) 47"
    | Q where "P = Q @ [47]" "Q \<noteq> []" "last Q \<noteq> 47" by blast
  then have "path_para_formula (posixpath cwd) (posix_dirname (P @ w)) = P"
  proof cases
    case 1
    with d have "posix_dirname (P @ w) = P" by simp
    then show ?thesis using 1 by (simp add: path_para_formula_def os_posixpath)
  next
    case 2
    have "\<not> (\<exists>c \<in> set P. c \<noteq> 47)" using 2 by auto
    then have "posix_dirname (P @ w) = P" by (simp add: d)
    moreover have "py_endswith P [47]" using 2 l by (simp add: py_endswith_uno)
    ultimately show ?thesis by (simp add: path_para_formula_def os_posixpath)
  next
    case 3
    have q: "last Q \<in> set Q" using 3(2) by simp
    have ne: "P \<noteq> [] \<and> (\<exists>c \<in> set P. c \<noteq> 47)" using 3 q by auto
    have dw: "dropWhile (\<lambda>c. c = 47) (rev Q) = rev Q"
      using 3(2,3) by (cases "rev Q") (auto simp add: last_rev [symmetric] hd_rev)
    have "posix_dirname (P @ w) = rev (dropWhile (\<lambda>c. c = 47) (rev P))"
      using d ne by presburger
    also have "\<dots> = Q" using 3(1) dw by simp
    finally have dq: "posix_dirname (P @ w) = Q" .
    have "\<not> py_endswith Q [47]"
      using 3(2,3) by (simp add: py_endswith_uno)
    then show ?thesis using dq 3 by (simp add: path_para_formula_def os_posixpath)
  qed
  then show ?thesis by (simp add: b)
qed

lemma partes_forma_base:
  assumes "47 \<notin> set w"
    and "P = [] \<or> P = replicate (Suc k) 47 \<or> (\<exists>Q. P = Q @ [47] \<and> Q \<noteq> [] \<and> last Q \<noteq> 47)"
  shows "posix_basename (P @ w) = w"
proof -
  have "last (replicate (Suc k) (47::nat)) = 47" by (rule last_replicate) simp
  then have "P = [] \<or> last P = 47" using assms(2) by auto
  then show ?thesis by (rule posix_basename_append [OF assms(1)])
qed

lemma partes_comps:
  assumes inv: "\<forall>w \<in> set comps. w \<noteq> [] \<and> 47 \<notin> set w"
    and p: "p = replicate k 47 @ join_sep [47] comps"
    and ne: "comps \<noteq> [] \<or> 0 < k"
  shows "path_para_formula (posixpath cwd) (posix_dirname p) @ posix_basename p = p \<and>
    (comps \<noteq> [] \<longrightarrow> posix_basename p = last comps)"
proof (cases comps rule: rev_cases)
  case Nil
  then obtain n where k: "k = Suc n" using ne by (cases k) auto
  have pe: "p = replicate (Suc n) 47 @ []" unfolding p Nil k by simp
  have w: "47 \<notin> set ([]::nat list)" by simp
  have f: "replicate (Suc n) 47 = [] \<or> replicate (Suc n) 47 = replicate (Suc n) (47::nat) \<or>
      (\<exists>Q. replicate (Suc n) (47::nat) = Q @ [47] \<and> Q \<noteq> [] \<and> last Q \<noteq> 47)"
    by simp
  have "path_para_formula (posixpath cwd) (posix_dirname p) @ posix_basename p = p"
    unfolding pe by (rule partes_forma [OF w f])
  then show ?thesis using Nil by simp
next
  case (snoc xs w)
  have w: "47 \<notin> set w" using inv snoc by simp
  have lw: "last comps = w" using snoc by simp
  have cne: "comps \<noteq> []" using snoc by simp
  have "\<exists>P. p = P @ w \<and>
      (P = [] \<or> P = replicate (Suc (k - 1)) 47 \<or> (\<exists>Q. P = Q @ [47] \<and> Q \<noteq> [] \<and> last Q \<noteq> 47))"
  proof (cases "xs = []")
    case True
    have pw: "p = replicate k 47 @ w" unfolding p snoc True by simp
    show ?thesis
    proof (cases k)
      case 0
      have "p = [] @ w" unfolding pw 0 by simp
      then show ?thesis by (intro exI [of _ "[]"]) simp
    next
      case (Suc n)
      have "p = replicate (Suc (k - 1)) 47 @ w" unfolding pw Suc by simp
      then show ?thesis by (intro exI [of _ "replicate (Suc (k - 1)) 47"]) simp
    qed
  next
    case False
    have x: "\<forall>v \<in> set xs. v \<noteq> []" using inv snoc by simp
    have j: "join_sep [47] xs \<noteq> []" "last (join_sep [47] xs) = last (last xs)"
      using join_sep_last [OF False x, of "[47]"] by simp_all
    have lx: "last xs \<in> set xs" using False by (rule last_in_set)
    have lne: "last xs \<noteq> []" using x lx by simp
    have "last (last xs) \<in> set (last xs)" using lne by (rule last_in_set)
    moreover have "47 \<notin> set (last xs)" using inv snoc lx by simp
    ultimately have l: "last (last xs) \<noteq> 47" by metis
    define Q where "Q = replicate k 47 @ join_sep [47] xs"
    have q1: "Q \<noteq> []" using j(1) by (simp add: Q_def)
    have q2: "last Q \<noteq> 47" using j l by (simp add: Q_def)
    have pq: "p = (Q @ [47]) @ w"
      unfolding p snoc Q_def using False by (simp add: join_sep_snoc)
    have "\<exists>Q'. Q @ [47] = Q' @ [47] \<and> Q' \<noteq> [] \<and> last Q' \<noteq> 47"
      using q1 q2 by (intro exI [of _ Q]) simp
    then show ?thesis using pq by (intro exI [of _ "Q @ [47]"]) simp
  qed
  then obtain P where f: "p = P @ w"
    "P = [] \<or> P = replicate (Suc (k - 1)) 47 \<or> (\<exists>Q. P = Q @ [47] \<and> Q \<noteq> [] \<and> last Q \<noteq> 47)"
    by (elim exE conjE)
  have a: "path_para_formula (posixpath cwd) (posix_dirname p) @ posix_basename p = p"
    unfolding f(1) by (rule partes_forma [OF w f(2)])
  have b: "posix_basename p = w"
    unfolding f(1) by (rule partes_forma_base [OF w f(2)])
  show ?thesis using a b lw by simp
qed

lemma partes_normpath:
  "path_para_formula (posixpath cwd) (posix_dirname (posix_normpath q)) @
     posix_basename (posix_normpath q) = posix_normpath q"
proof -
  have punto: "path_para_formula (posixpath cwd) (posix_dirname [46]) @ posix_basename [46] = [46]"
    using partes_forma [of "[46]" "[]" 0 cwd] by simp
  show ?thesis
  proof (cases "q = []")
    case True
    then show ?thesis using punto by (simp add: posix_normpath_def lit_def)
  next
    case False
    define k :: nat where "k = (if py_startswith q (lit ''/'') then
                 (if py_startswith q (lit ''//'') \<and> \<not> py_startswith q (lit ''///'')
                  then 2 else 1) else 0)"
    define comps where "comps = foldl (normpath_step k) [] (split_sep 47 q)"
    define p where "p = replicate k 47 @ join_sep [47] comps"
    have n: "posix_normpath q = (if p = [] then [46] else p)"
      using False by (simp add: posix_normpath_def Let_def k_def comps_def p_def lit_def)
    have inv: "\<forall>w \<in> set comps. w \<noteq> [] \<and> 47 \<notin> set w"
      unfolding comps_def
      by (rule foldl_normpath_step_inv) (simp_all add: split_sep_sin_sep)
    show ?thesis
    proof (cases "p = []")
      case True
      then show ?thesis using n punto by simp
    next
      case False
      have "comps \<noteq> [] \<or> 0 < k"
        using False by (cases k) (auto simp add: p_def)
      from partes_comps [OF inv p_def this, of cwd] show ?thesis
        using n False by simp
    qed
  qed
qed





lemma formula_enlace_forma:
  "formula_enlace p b ref = lit ''='' @ [39] @ p @ lit ''['' @ b @ lit '']Hoja1'' @ [39] @ lit ''!'' @ ref"
  by (simp add: formula_enlace_def NOMBRE_HOJA_ORIGEN_FIJO_def lit_def)


section \<open>Rows whose file is missing\<close>

lemma fila_procesada_sin_cambio:
  assumes "1 \<le> k" "k \<le> length ws"
    and "fs (os_join osp ruta_base
               (py_strip (py_str (ws_cell_value ws k COL_CODIGO)) @ lit ''.xlsx'')) = NoExiste \<or>
         (\<exists>e. fs (os_join osp ruta_base
               (py_strip (py_str (ws_cell_value ws k COL_CODIGO)) @ lit ''.xlsx'')) = Ilegible e)"
  shows "fila_procesada osp fs ruta_base (ws ! (k - 1)) = ws ! (k - 1)"
proof -
  have "celda (ws ! (k - 1)) COL_CODIGO = ws_cell_value ws k COL_CODIGO"
    using assms(1,2) by (simp add: ws_cell_value_celda)
  then show ?thesis
    using assms(3) by (auto simp add: fila_procesada_def)
qed

lemma procesar_hoja_fila_sin_cambio:
  assumes "FILA_INICIO \<le> k" "alcanzada ws FILA_INICIO k"
    and "py_truthy (ws_cell_value ws k COL_CODIGO)"
    and "fs (os_join osp ruta_base
               (py_strip (py_str (ws_cell_value ws k COL_CODIGO)) @ lit ''.xlsx'')) = NoExiste \<or>
         (\<exists>e. fs (os_join osp ruta_base
               (py_strip (py_str (ws_cell_value ws k COL_CODIGO)) @ lit ''.xlsx'')) = Ilegible e)"
  shows "ws_cell_value (fst (procesar_hoja osp fs ruta_base ws)) k c = ws_cell_value ws k c"
proof -
  have k: "1 \<le> k" "k \<le> length ws"
    using assms(3) truthy_cell_in_sheet by blast+
  show ?thesis
    unfolding procesar_hoja_celda [OF assms(1,2,3)]
      fila_procesada_sin_cambio [where fs = fs and osp = osp and ruta_base = ruta_base,
        OF k assms(4)]
    using k by (simp add: ws_cell_value_celda)
qed

lemma procesar_hoja_evento:
  assumes "FILA_INICIO \<le> k" "alcanzada ws FILA_INICIO k"
    and "py_truthy (ws_cell_value ws k COL_CODIGO)"
  shows "evento_fila osp fs ruta_base k (ws_cell_value ws k COL_CODIGO)
           \<in> set (snd (procesar_hoja osp fs ruta_base ws))"
proof -
  have k: "1 \<le> k" "k \<le> length ws"
    using assms(3) truthy_cell_in_sheet by blast+
  have f: "1 \<le> FILA_INICIO" by (simp add: FILA_INICIO_def)
  show ?thesis
    using procesar_hoja_desde_fila(2) [OF f assms, of osp fs ruta_base] k
    by (simp add: procesar_hoja_def ws_cell_value_celda)
qed

lemma procesar_hoja_v1_evento:
  assumes "FILA_INICIO \<le> k" "alcanzada ws FILA_INICIO k"
    and "py_truthy (ws_cell_value ws k COL_CODIGO)"
  shows "evento_fila_v1 osp fs k (ws_cell_value ws k COL_CODIGO)
           \<in> set (snd (procesar_hoja_v1 osp fs ws))"
proof -
  have k: "1 \<le> k" "k \<le> length ws"
    using assms(3) truthy_cell_in_sheet by blast+
  have f: "1 \<le> FILA_INICIO" by (simp add: FILA_INICIO_def)
  show ?thesis
    using procesar_hoja_v1_desde_fila(2) [OF f assms, of osp fs] k
    by (simp add: procesar_hoja_v1_def ws_cell_value_celda)
qed

lemma procesar_hoja_v1_formulas:
  assumes "FILA_INICIO \<le> k" "alcanzada ws FILA_INICIO k"
    and "py_truthy (ws_cell_value ws k COL_CODIGO)"
    and "ruta = os_abspath osp (os_join osp RUTA_ARCHIVOS_ORIGEN
            (py_strip (py_str (ws_cell_value ws k COL_CODIGO)) @ lit ''.xlsx''))"
  shows "\<forall>(c, ref) \<in> set [(6, lit ''$N$21''), (7, lit ''$N$25''), (9, lit ''$N$49''),
                          (11, lit ''$N$153''), (13, lit ''$N$161'')].
     ws_cell_value (fst (procesar_hoja_v1 osp fs ws)) k c =
       PStr (formula_enlace (path_para_formula osp (os_dirname osp ruta))
               (os_basename osp ruta) ref)"
proof -
  have k: "1 \<le> k" "k \<le> length ws"
    using assms(3) truthy_cell_in_sheet by blast+
  have r: "ruta_absoluta_v1 osp (celda (ws ! (k - 1)) COL_CODIGO) = ruta"
    using k assms(4) by (simp add: ruta_absoluta_v1_def ws_cell_value_celda)
  show ?thesis
    unfolding procesar_hoja_v1_celda [OF assms(1,2,3)] celda_fila_enlazada
      COLUMNAS_DESTINO_V1_indices r
    by simp
qed

lemmas ruta_defs = ejemplo_osp_def posixpath_def posix_join_def posix_abspath_def
  posix_normpath_def normpath_step_def posix_dirname_def posix_basename_def
  py_startswith_def py_endswith_def RUTA_ARCHIVOS_ORIGEN_def lit_def Let_def

lemma ejemplo_ruta_B200:
  "os_abspath ejemplo_osp (os_join ejemplo_osp RUTA_ARCHIVOS_ORIGEN (lit ''B200'' @ lit ''.xlsx''))
     = lit ''/datos/C:'' @ [92] @ lit ''presupuestos/B200.xlsx''"
  by (simp add: ruta_defs)



lemma ejemplo_formula_B200:
  "os_dirname ejemplo_osp (lit ''/datos/C:'' @ [92] @ lit ''presupuestos/B200.xlsx'')
     = lit ''/datos/C:'' @ [92] @ lit ''presupuestos''"
  "os_basename ejemplo_osp (lit ''/datos/C:'' @ [92] @ lit ''presupuestos/B200.xlsx'')
     = lit ''B200.xlsx''"
  by (simp_all add: ruta_defs)

text \<open>
  C4. Let row \<open>k\<close> be a row that the in-place traversal reaches, with a truthy code
  cell whose trimmed text is \<open>codigo\<close>. When the base directory has no file
  \<open>codigo.xlsx\<close>, the in-place value-copy script leaves every cell of row \<open>k\<close> as it
  was and prints the status "file not found" for it, and the streaming script appends
  a row with the same code unchanged, with the same status. In the link script, when
  the resolved path \<open>ruta\<close> of \<open>codigo.xlsx\<close> under the fixed directory is no file,
  each of the five destination columns of row \<open>k\<close> still receives the string made of
  \<open>='\<close>, the directory of \<open>ruta\<close> with its trailing separator, \<open>[\<close>, the base name
  of \<open>ruta\<close>, \<open>]Hoja1'!\<close> and the source reference of the column, and the status
  says that the file was not found. With the POSIX path library the directory part
  and the base name, one after the other, spell \<open>ruta\<close> itself.
\<close>

theorem C4_missing_file:
  assumes "FILA_INICIO \<le> k" "alcanzada ws FILA_INICIO k"
    and "py_truthy (ws_cell_value ws k COL_CODIGO)"
    and "codigo = py_strip (py_str (ws_cell_value ws k COL_CODIGO))"
  shows "(fs (os_join osp ruta_base (codigo @ lit ''.xlsx'')) = NoExiste \<longrightarrow>
       (\<forall>c. ws_cell_value (fst (procesar_hoja osp fs ruta_base ws)) k c = ws_cell_value ws k c) \<and>
       (k, codigo, ArchivoNoEncontrado) \<in> set (snd (procesar_hoja osp fs ruta_base ws)) \<and>
       (FILA_INICIO_DATOS \<le> r_idx + 1 \<and> COL_CODIGO \<le> length row_data \<and>
        row_data ! (COL_CODIGO - 1) = ws_cell_value ws k COL_CODIGO \<and> codigo \<noteq> [] \<longrightarrow>
          procesar_fila_stream osp fs ruta_base r_idx row_data =
            Inr (row_data, [(r_idx + 1, codigo, ArchivoNoEncontrado)]))) \<and>
     (ruta = os_abspath osp (os_join osp RUTA_ARCHIVOS_ORIGEN (codigo @ lit ''.xlsx'')) \<and>
      \<not> isfile fs ruta \<longrightarrow>
       (\<forall>(c, ref) \<in> set [(6, lit ''$N$21''), (7, lit ''$N$25''), (9, lit ''$N$49''),
                           (11, lit ''$N$153''), (13, lit ''$N$161'')].
          ws_cell_value (fst (procesar_hoja_v1 osp fs ws)) k c =
            PStr (lit ''='' @ [39] @ path_para_formula osp (os_dirname osp ruta) @ lit ''['' @
                  os_basename osp ruta @ lit '']Hoja1'' @ [39] @ lit ''!'' @ ref)) \<and>
       (k, codigo, FormulaSinArchivo) \<in> set (snd (procesar_hoja_v1 osp fs ws)) \<and>
       (osp = posixpath cwd \<longrightarrow>
          path_para_formula osp (os_dirname osp ruta) @ os_basename osp ruta = ruta))"
proof (intro conjI impI)
  assume n: "fs (os_join osp ruta_base (codigo @ lit ''.xlsx'')) = NoExiste"
  then have n': "fs (os_join osp ruta_base
        (py_strip (py_str (ws_cell_value ws k COL_CODIGO)) @ lit ''.xlsx'')) = NoExiste \<or>
      (\<exists>e. fs (os_join osp ruta_base
        (py_strip (py_str (ws_cell_value ws k COL_CODIGO)) @ lit ''.xlsx'')) = Ilegible e)"
    using assms(4) by simp
  show "\<forall>c. ws_cell_value (fst (procesar_hoja osp fs ruta_base ws)) k c = ws_cell_value ws k c"
    using procesar_hoja_fila_sin_cambio [where fs = fs and osp = osp and ruta_base = ruta_base,
        OF assms(1,2,3) n'] by simp
  show "(k, codigo, ArchivoNoEncontrado) \<in> set (snd (procesar_hoja osp fs ruta_base ws))"
    using procesar_hoja_evento [OF assms(1,2,3), of osp fs ruta_base] n assms(4)
    by (simp add: evento_fila_def)
next
  assume n: "fs (os_join osp ruta_base (codigo @ lit ''.xlsx'')) = NoExiste"
    and s: "FILA_INICIO_DATOS \<le> r_idx + 1 \<and> COL_CODIGO \<le> length row_data \<and>
        row_data ! (COL_CODIGO - 1) = ws_cell_value ws k COL_CODIGO \<and> codigo \<noteq> []"
  then show "procesar_fila_stream osp fs ruta_base r_idx row_data =
      Inr (row_data, [(r_idx + 1, codigo, ArchivoNoEncontrado)])"
    using assms(3,4) by (simp add: procesar_fila_stream_def Let_def COL_CODIGO_def)
next
  assume r: "ruta = os_abspath osp (os_join osp RUTA_ARCHIVOS_ORIGEN (codigo @ lit ''.xlsx'')) \<and>
      \<not> isfile fs ruta"
  then have r': "ruta = os_abspath osp (os_join osp RUTA_ARCHIVOS_ORIGEN
      (py_strip (py_str (ws_cell_value ws k COL_CODIGO)) @ lit ''.xlsx''))"
    using assms(4) by simp
  show "\<forall>(c, ref) \<in> set [(6, lit ''$N$21''), (7, lit ''$N$25''), (9, lit ''$N$49''),
                           (11, lit ''$N$153''), (13, lit ''$N$161'')].
          ws_cell_value (fst (procesar_hoja_v1 osp fs ws)) k c =
            PStr (lit ''='' @ [39] @ path_para_formula osp (os_dirname osp ruta) @ lit ''['' @
                  os_basename osp ruta @ lit '']Hoja1'' @ [39] @ lit ''!'' @ ref)"
    using procesar_hoja_v1_formulas [OF assms(1,2,3) r', of fs]
    unfolding formula_enlace_forma .
  show "(k, codigo, FormulaSinArchivo) \<in> set (snd (procesar_hoja_v1 osp fs ws))"
    using procesar_hoja_v1_evento [OF assms(1,2,3), of osp fs] r r' assms(4)
    by (simp add: evento_fila_v1_def ruta_absoluta_v1_def)
next
  assume r: "ruta = os_abspath osp (os_join osp RUTA_ARCHIVOS_ORIGEN (codigo @ lit ''.xlsx'')) \<and>
      \<not> isfile fs ruta"
    and o: "osp = posixpath cwd"
  have "ruta = posix_normpath
      (if py_startswith (posix_join RUTA_ARCHIVOS_ORIGEN (codigo @ lit ''.xlsx'')) (lit ''/'')
       then posix_join RUTA_ARCHIVOS_ORIGEN (codigo @ lit ''.xlsx'')
       else posix_join cwd (posix_join RUTA_ARCHIVOS_ORIGEN (codigo @ lit ''.xlsx'')))"
    using r o by (simp add: os_posixpath posix_abspath_def)
  then obtain q where q: "ruta = posix_normpath q" by blast
  show "path_para_formula osp (os_dirname osp ruta) @ os_basename osp ruta = ruta"
    unfolding o q os_posixpath by (rule partes_normpath)
qed

theorem C4_missing_file_witness:
  "FILA_INICIO \<le> 7 \<and> alcanzada ejemplo_hoja FILA_INICIO 7 \<and>
   py_truthy (ws_cell_value ejemplo_hoja 7 COL_CODIGO) \<and>
   lit ''B200'' = py_strip (py_str (ws_cell_value ejemplo_hoja 7 COL_CODIGO)) \<and>
   ejemplo_fs (os_join ejemplo_osp (lit ''/datos'') (lit ''B200'' @ lit ''.xlsx'')) = NoExiste \<and>
   FILA_INICIO_DATOS \<le> 6 + 1 \<and> COL_CODIGO \<le> length (ejemplo_hoja ! 6) \<and>
   ejemplo_hoja ! 6 ! (COL_CODIGO - 1) = ws_cell_value ejemplo_hoja 7 COL_CODIGO \<and>
   lit ''B200'' \<noteq> [] \<and>
   lit ''/datos/C:'' @ [92] @ lit ''presupuestos/B200.xlsx'' =
     os_abspath ejemplo_osp (os_join ejemplo_osp RUTA_ARCHIVOS_ORIGEN (lit ''B200'' @ lit ''.xlsx'')) \<and>
   \<not> isfile ejemplo_fs (lit ''/datos/C:'' @ [92] @ lit ''presupuestos/B200.xlsx'') \<and>
   ejemplo_osp = posixpath (lit ''/datos'') \<and>
   ws_cell_value (fst (procesar_hoja ejemplo_osp ejemplo_fs (lit ''/datos'') ejemplo_hoja)) 7 9
     = PInt 7 \<and>
   procesar_fila_stream ejemplo_osp ejemplo_fs (lit ''/datos'') 6 (ejemplo_hoja ! 6) =
     Inr (ejemplo_hoja ! 6, [(6 + 1, lit ''B200'', ArchivoNoEncontrado)]) \<and>
   ws_cell_value (fst (procesar_hoja_v1 ejemplo_osp ejemplo_fs ejemplo_hoja)) 7 6 =
     PStr (lit ''='' @ [39] @ lit ''/datos/C:'' @ [92] @ lit ''presupuestos/[B200.xlsx]Hoja1'' @
           [39] @ lit ''!$N$21'') \<and>
   (7, lit ''B200'', FormulaSinArchivo) \<in> set (snd (procesar_hoja_v1 ejemplo_osp ejemplo_fs ejemplo_hoja)) \<and>
   path_para_formula ejemplo_osp
       (os_dirname ejemplo_osp (lit ''/datos/C:'' @ [92] @ lit ''presupuestos/B200.xlsx'')) @
     os_basename ejemplo_osp (lit ''/datos/C:'' @ [92] @ lit ''presupuestos/B200.xlsx'') =
     lit ''/datos/C:'' @ [92] @ lit ''presupuestos/B200.xlsx''"
proof -
  have h1: "FILA_INICIO \<le> 7" by (simp add: FILA_INICIO_def)
  have h3: "py_truthy (ws_cell_value ejemplo_hoja 7 COL_CODIGO)"
    by (simp add: ejemplo_codigos lit_no_vacio)
  have h4: "lit ''B200'' = py_strip (py_str (ws_cell_value ejemplo_hoja 7 COL_CODIGO))"
    by (simp add: ejemplo_codigos ejemplo_strip)
  have h5: "ejemplo_fs (os_join ejemplo_osp (lit ''/datos'') (lit ''B200'' @ lit ''.xlsx'')) = NoExiste"
    by (simp add: ejemplo_join ejemplo_fs_eval)
  have h6: "FILA_INICIO_DATOS \<le> 6 + 1" by (simp add: FILA_INICIO_DATOS_def)
  have h7: "COL_CODIGO \<le> length (ejemplo_hoja ! 6)"
    by (simp add: ejemplo_hoja_filas fila_con_codigo_simps COL_CODIGO_def)
  have h8: "ejemplo_hoja ! 6 ! (COL_CODIGO - 1) = ws_cell_value ejemplo_hoja 7 COL_CODIGO"
    unfolding ejemplo_hoja_filas ejemplo_codigos by (rule fila_con_codigo_simps)
  have h9: "lit ''B200'' \<noteq> []" by (rule lit_no_vacio)
  have h10: "lit ''/datos/C:'' @ [92] @ lit ''presupuestos/B200.xlsx'' =
      os_abspath ejemplo_osp (os_join ejemplo_osp RUTA_ARCHIVOS_ORIGEN (lit ''B200'' @ lit ''.xlsx''))"
    by (simp add: ejemplo_ruta_B200)
  have h11: "\<not> isfile ejemplo_fs (lit ''/datos/C:'' @ [92] @ lit ''presupuestos/B200.xlsx'')"
    by (simp add: isfile_def ejemplo_fs_def lit_def)
  have h12: "ejemplo_osp = posixpath (lit ''/datos'')" by (rule ejemplo_osp_def)
  have old: "ws_cell_value ejemplo_hoja 7 9 = PInt 7"
    by (simp add: ws_cell_value_celda ejemplo_hoja_filas fila_con_codigo_simps)
  note t = C4_missing_file [OF h1 ejemplo_alcanzada(2) h3 h4, of ejemplo_fs ejemplo_osp
      "lit ''/datos''" 6 "ejemplo_hoja ! 6"
      "lit ''/datos/C:'' @ [92] @ lit ''presupuestos/B200.xlsx''" "lit ''/datos''"]
  have a: "(\<forall>c. ws_cell_value (fst (procesar_hoja ejemplo_osp ejemplo_fs (lit ''/datos'') ejemplo_hoja)) 7 c
        = ws_cell_value ejemplo_hoja 7 c) \<and>
      procesar_fila_stream ejemplo_osp ejemplo_fs (lit ''/datos'') 6 (ejemplo_hoja ! 6) =
        Inr (ejemplo_hoja ! 6, [(6 + 1, lit ''B200'', ArchivoNoEncontrado)])"
    using t h5 h6 h7 h8 h9 by blast
  have b: "(\<forall>(c, ref) \<in> set [(6, lit ''$N$21''), (7, lit ''$N$25''), (9, lit ''$N$49''),
                           (11, lit ''$N$153''), (13, lit ''$N$161'')].
          ws_cell_value (fst (procesar_hoja_v1 ejemplo_osp ejemplo_fs ejemplo_hoja)) 7 c =
            PStr (lit ''='' @ [39] @
                  path_para_formula ejemplo_osp
                    (os_dirname ejemplo_osp (lit ''/datos/C:'' @ [92] @ lit ''presupuestos/B200.xlsx'')) @
                  lit ''['' @
                  os_basename ejemplo_osp (lit ''/datos/C:'' @ [92] @ lit ''presupuestos/B200.xlsx'') @
                  lit '']Hoja1'' @ [39] @ lit ''!'' @ ref)) \<and>
       (7, lit ''B200'', FormulaSinArchivo) \<in> set (snd (procesar_hoja_v1 ejemplo_osp ejemplo_fs ejemplo_hoja)) \<and>
       path_para_formula ejemplo_osp
           (os_dirname ejemplo_osp (lit ''/datos/C:'' @ [92] @ lit ''presupuestos/B200.xlsx'')) @
         os_basename ejemplo_osp (lit ''/datos/C:'' @ [92] @ lit ''presupuestos/B200.xlsx'') =
         lit ''/datos/C:'' @ [92] @ lit ''presupuestos/B200.xlsx''"
    using t h10 h11 h12 by blast
  have mem: "(6, lit ''$N$21'') \<in> set [(6, lit ''$N$21''), (7, lit ''$N$25''), (9, lit ''$N$49''),
      (11, lit ''$N$153''), (13, lit ''$N$161'')]"
    by simp
  from b mem
  have "ws_cell_value (fst (procesar_hoja_v1 ejemplo_osp ejemplo_fs ejemplo_hoja)) 7 6 =
      PStr (lit ''='' @ [39] @
            path_para_formula ejemplo_osp
              (os_dirname ejemplo_osp (lit ''/datos/C:'' @ [92] @ lit ''presupuestos/B200.xlsx'')) @
            lit ''['' @
            os_basename ejemplo_osp (lit ''/datos/C:'' @ [92] @ lit ''presupuestos/B200.xlsx'') @
            lit '']Hoja1'' @ [39] @ lit ''!'' @ lit ''$N$21'')"
    by blast
  then have cell: "ws_cell_value (fst (procesar_hoja_v1 ejemplo_osp ejemplo_fs ejemplo_hoja)) 7 6 =
      PStr (lit ''='' @ [39] @ lit ''/datos/C:'' @ [92] @ lit ''presupuestos/[B200.xlsx]Hoja1'' @
           [39] @ lit ''!$N$21'')"
    unfolding ejemplo_formula_B200
    by (simp add: path_para_formula_def ejemplo_osp_def os_posixpath py_endswith_def lit_def)
  have c9: "ws_cell_value (fst (procesar_hoja ejemplo_osp ejemplo_fs (lit ''/datos'') ejemplo_hoja)) 7 9
     = PInt 7"
    using a old by simp
  show ?thesis
    using h1 ejemplo_alcanzada(2) h3 h4 h5 h6 h7 h8 h9 h10 h11 h12 c9 a b cell by blast
qed

section \<open>Rows whose file does not load\<close>

text \<open>
  C5. Let the code cell of row \<open>k\<close> be truthy, with trimmed text \<open>codigo\<close>, and let
  the file \<open>codigo.xlsx\<close> of the base directory exist and fail to load with the
  exception \<open>e\<close>. In the in-place script the loop at row \<open>k\<close> prints the status
  "read error" with \<open>e\<close> for the row, leaves the sheet as it is and goes on with row
  \<open>k + 1\<close>; in a whole run that reaches row \<open>k\<close>, every cell of the row holds its
  input value afterwards. In the streaming script the loop body returns normally with
  the row unchanged and the same status, and the loop goes on with the next source row.
\<close>

theorem C5_read_error:
  assumes "py_truthy (ws_cell_value ws k COL_CODIGO)"
    and "codigo = py_strip (py_str (ws_cell_value ws k COL_CODIGO))"
    and "fs (os_join osp ruta_base (codigo @ lit ''.xlsx'')) = Ilegible e"
  shows "procesar_hoja_desde osp fs ruta_base ws k =
       (case procesar_hoja_desde osp fs ruta_base ws (k + 1) of
          (w, evs) \<Rightarrow> (w, (k, codigo, ErrorAlLeer e) # evs)) \<and>
     (FILA_INICIO \<le> k \<and> alcanzada ws FILA_INICIO k \<longrightarrow>
        (\<forall>c. ws_cell_value (fst (procesar_hoja osp fs ruta_base ws)) k c = ws_cell_value ws k c) \<and>
        (k, codigo, ErrorAlLeer e) \<in> set (snd (procesar_hoja osp fs ruta_base ws))) \<and>
     (FILA_INICIO_DATOS \<le> r_idx + 1 \<and> COL_CODIGO \<le> length row_data \<and>
      row_data ! (COL_CODIGO - 1) = ws_cell_value ws k COL_CODIGO \<and> codigo \<noteq> [] \<longrightarrow>
        procesar_fila_stream osp fs ruta_base r_idx row_data =
          Inr (row_data, [(r_idx + 1, codigo, ErrorAlLeer e)]) \<and>
        procesar_filas_stream osp fs ruta_base r_idx (row_data # resto) ws_salida registro =
          procesar_filas_stream osp fs ruta_base (Suc r_idx) resto (ws_salida @ [row_data])
            (registro @ [(r_idx + 1, codigo, ErrorAlLeer e)]))"
proof (intro conjI impI)
  have body: "procesar_fila osp fs ruta_base ws k (ws_cell_value ws k COL_CODIGO) =
      (ws, (k, codigo, ErrorAlLeer e))"
    using assms(2,3) by (simp add: procesar_fila_def Let_def)
  show "procesar_hoja_desde osp fs ruta_base ws k =
       (case procesar_hoja_desde osp fs ruta_base ws (k + 1) of
          (w, evs) \<Rightarrow> (w, (k, codigo, ErrorAlLeer e) # evs))"
    by (subst procesar_hoja_desde.simps) (simp add: assms(1) body)
next
  assume a: "FILA_INICIO \<le> k \<and> alcanzada ws FILA_INICIO k"
  have n': "fs (os_join osp ruta_base
        (py_strip (py_str (ws_cell_value ws k COL_CODIGO)) @ lit ''.xlsx'')) = NoExiste \<or>
      (\<exists>e. fs (os_join osp ruta_base
        (py_strip (py_str (ws_cell_value ws k COL_CODIGO)) @ lit ''.xlsx'')) = Ilegible e)"
    using assms(2,3) by simp
  from a have a1: "FILA_INICIO \<le> k" and a2: "alcanzada ws FILA_INICIO k" by simp_all
  show "\<forall>c. ws_cell_value (fst (procesar_hoja osp fs ruta_base ws)) k c = ws_cell_value ws k c"
    using procesar_hoja_fila_sin_cambio [where fs = fs and osp = osp and ruta_base = ruta_base,
        OF a1 a2 assms(1) n'] by simp
  show "(k, codigo, ErrorAlLeer e) \<in> set (snd (procesar_hoja osp fs ruta_base ws))"
    using procesar_hoja_evento [OF a1 a2 assms(1), of osp fs ruta_base] assms(2,3)
    by (simp add: evento_fila_def)
next
  assume s: "FILA_INICIO_DATOS \<le> r_idx + 1 \<and> COL_CODIGO \<le> length row_data \<and>
      row_data ! (COL_CODIGO - 1) = ws_cell_value ws k COL_CODIGO \<and> codigo \<noteq> []"
  then show row: "procesar_fila_stream osp fs ruta_base r_idx row_data =
      Inr (row_data, [(r_idx + 1, codigo, ErrorAlLeer e)])"
    using assms by (simp add: procesar_fila_stream_def Let_def COL_CODIGO_def)
  then show "procesar_filas_stream osp fs ruta_base r_idx (row_data # resto) ws_salida registro =
      procesar_filas_stream osp fs ruta_base (Suc r_idx) resto (ws_salida @ [row_data])
        (registro @ [(r_idx + 1, codigo, ErrorAlLeer e)])"
    by simp
qed

theorem C5_read_error_witness:
  "py_truthy (ws_cell_value ejemplo_hoja 8 COL_CODIGO) \<and>
   lit ''C300'' = py_strip (py_str (ws_cell_value ejemplo_hoja 8 COL_CODIGO)) \<and>
   ejemplo_fs (os_join ejemplo_osp (lit ''/datos'') (lit ''C300'' @ lit ''.xlsx'')) =
     Ilegible (Excepcion (lit ''BadZipFile'')) \<and>
   FILA_INICIO \<le> 8 \<and> alcanzada ejemplo_hoja FILA_INICIO 8 \<and>
   FILA_INICIO_DATOS \<le> 7 + 1 \<and> COL_CODIGO \<le> length (ejemplo_hoja ! 7) \<and>
   ejemplo_hoja ! 7 ! (COL_CODIGO - 1) = ws_cell_value ejemplo_hoja 8 COL_CODIGO \<and>
   lit ''C300'' \<noteq> [] \<and>
   ws_cell_value (fst (procesar_hoja ejemplo_osp ejemplo_fs (lit ''/datos'') ejemplo_hoja)) 8 9
     = PInt 7 \<and>
   (8, lit ''C300'', ErrorAlLeer (Excepcion (lit ''BadZipFile'')))
     \<in> set (snd (procesar_hoja ejemplo_osp ejemplo_fs (lit ''/datos'') ejemplo_hoja)) \<and>
   procesar_fila_stream ejemplo_osp ejemplo_fs (lit ''/datos'') 7 (ejemplo_hoja ! 7) =
     Inr (ejemplo_hoja ! 7, [(7 + 1, lit ''C300'', ErrorAlLeer (Excepcion (lit ''BadZipFile'')))])"
proof -
  have h1: "py_truthy (ws_cell_value ejemplo_hoja 8 COL_CODIGO)"
    by (simp add: ejemplo_codigos lit_no_vacio)
  have h2: "lit ''C300'' = py_strip (py_str (ws_cell_value ejemplo_hoja 8 COL_CODIGO))"
    by (simp add: ejemplo_codigos ejemplo_strip)
  have h3: "ejemplo_fs (os_join ejemplo_osp (lit ''/datos'') (lit ''C300'' @ lit ''.xlsx'')) =
      Ilegible (Excepcion (lit ''BadZipFile''))"
    by (simp add: ejemplo_join ejemplo_fs_eval)
  have h4: "FILA_INICIO \<le> 8" by (simp add: FILA_INICIO_def)
  have h6: "FILA_INICIO_DATOS \<le> 7 + 1" by (simp add: FILA_INICIO_DATOS_def)
  have h7: "COL_CODIGO \<le> length (ejemplo_hoja ! 7)"
    by (simp add: ejemplo_hoja_filas fila_con_codigo_simps COL_CODIGO_def)
  have h8: "ejemplo_hoja ! 7 ! (COL_CODIGO - 1) = ws_cell_value ejemplo_hoja 8 COL_CODIGO"
    unfolding ejemplo_hoja_filas ejemplo_codigos by (rule fila_con_codigo_simps)
  have h9: "lit ''C300'' \<noteq> []" by (rule lit_no_vacio)
  have old: "ws_cell_value ejemplo_hoja 8 9 = PInt 7"
    by (simp add: ws_cell_value_celda ejemplo_hoja_filas fila_con_codigo_simps)
  note t = C5_read_error [where fs = ejemplo_fs and osp = ejemplo_osp
      and ruta_base = "lit ''/datos''" and ws = ejemplo_hoja and k = 8
      and codigo = "lit ''C300''" and e = "Excepcion (lit ''BadZipFile'')"
      and r_idx = 7 and row_data = "ejemplo_hoja ! 7", OF h1 h2 h3]
  show ?thesis
    using t h1 h2 h3 h4 ejemplo_alcanzada(3) h6 h7 h8 h9 old by simp
qed

section \<open>The formulas of the link mode\<close>


lemma ejemplo_ruta_A100:
  "os_abspath ejemplo_osp (os_join ejemplo_osp RUTA_ARCHIVOS_ORIGEN (lit ''A100'' @ lit ''.xlsx''))
     = lit ''/datos/C:'' @ [92] @ lit ''presupuestos/A100.xlsx''"
  "os_dirname ejemplo_osp (lit ''/datos/C:'' @ [92] @ lit ''presupuestos/A100.xlsx'')
     = lit ''/datos/C:'' @ [92] @ lit ''presupuestos''"
  "os_basename ejemplo_osp (lit ''/datos/C:'' @ [92] @ lit ''presupuestos/A100.xlsx'')
     = lit ''A100'' @ lit ''.xlsx''"
  "path_para_formula ejemplo_osp (lit ''/datos/C:'' @ [92] @ lit ''presupuestos'')
     = lit ''/datos/C:'' @ [92] @ lit ''presupuestos/''"
  by (simp_all add: ruta_defs path_para_formula_def)




section \<open>A data row without a cell in the code column\<close>

lemma filas_stream_fila_corta:
  assumes "i < length ws" "FILA_INICIO_DATOS \<le> r + i + 1" "length (ws ! i) < COL_CODIGO"
    and "\<forall>j < i. FILA_INICIO_DATOS \<le> r + j + 1 \<longrightarrow> COL_CODIGO \<le> length (ws ! j)"
  shows "procesar_filas_stream osp fs base r ws acc reg = Inl IndexError"
  using assms
proof (induction ws arbitrary: r i acc reg)
  case Nil
  then show ?case by simp
next
  case (Cons row ws)
  show ?case
  proof (cases i)
    case 0
    then have "procesar_fila_stream osp fs base r row = Inl IndexError"
      using Cons.prems(2,3) by (simp add: procesar_fila_stream_def COL_CODIGO_def)
    then show ?thesis by simp
  next
    case (Suc n)
    have "r + 1 < FILA_INICIO_DATOS \<or> COL_CODIGO \<le> length row"
    proof (cases "FILA_INICIO_DATOS \<le> r + 1")
      case True
      then show ?thesis using Cons.prems(4) [rule_format, of 0] Suc by simp
    next
      case False
      then show ?thesis by simp
    qed
    then obtain row' evs where s: "procesar_fila_stream osp fs base r row = Inr (row', evs)"
      using fila_stream_Inr by blast
    have a: "n < length ws" using Cons.prems(1) Suc by simp
    have b: "FILA_INICIO_DATOS \<le> Suc r + n + 1" using Cons.prems(2) Suc by simp
    have c: "length (ws ! n) < COL_CODIGO" using Cons.prems(3) Suc by simp
    have d: "\<forall>j < n. FILA_INICIO_DATOS \<le> Suc r + j + 1 \<longrightarrow> COL_CODIGO \<le> length (ws ! j)"
    proof (intro allI impI)
      fix j assume "j < n" "FILA_INICIO_DATOS \<le> Suc r + j + 1"
      then show "COL_CODIGO \<le> length (ws ! j)"
        using Cons.prems(4) [rule_format, of "Suc j"] Suc by simp
    qed
    show ?thesis
      using Cons.IH [OF a b c d] s by simp
  qed
qed

lemma codigo_vacio_termina_recorrido:
  assumes "FILA_INICIO \<le> k" "alcanzada ws FILA_INICIO k"
    and "\<not> py_truthy (ws_cell_value ws k COL_CODIGO)"
  shows "snd (procesar_hoja osp fs ruta_base ws) =
      map (\<lambda>j. evento_fila osp fs ruta_base j (celda (ws ! (j - 1)) COL_CODIGO)) [FILA_INICIO..<k]"
    and "k \<le> j \<Longrightarrow>
      ws_cell_value (fst (procesar_hoja osp fs ruta_base ws)) j c = ws_cell_value ws j c"
    and "snd (procesar_hoja_v1 osp fs ws) =
      map (\<lambda>j. evento_fila_v1 osp fs j (celda (ws ! (j - 1)) COL_CODIGO)) [FILA_INICIO..<k]"
    and "k \<le> j \<Longrightarrow>
      ws_cell_value (fst (procesar_hoja_v1 osp fs ws)) j c = ws_cell_value ws j c"
proof -
  have f: "1 \<le> FILA_INICIO" by (simp add: FILA_INICIO_def)
  show "snd (procesar_hoja osp fs ruta_base ws) =
      map (\<lambda>j. evento_fila osp fs ruta_base j (celda (ws ! (j - 1)) COL_CODIGO)) [FILA_INICIO..<k]"
    unfolding procesar_hoja_def procesar_hoja_desde_fin [OF f assms(1,2,3)] by simp
  show "k \<le> j \<Longrightarrow>
      ws_cell_value (fst (procesar_hoja osp fs ruta_base ws)) j c = ws_cell_value ws j c"
    unfolding procesar_hoja_def procesar_hoja_desde_fin [OF f assms(1,2,3)]
    by (simp add: celda_al_llegar_despues)
  show "snd (procesar_hoja_v1 osp fs ws) =
      map (\<lambda>j. evento_fila_v1 osp fs j (celda (ws ! (j - 1)) COL_CODIGO)) [FILA_INICIO..<k]"
    unfolding procesar_hoja_v1_def procesar_hoja_v1_desde_fin [OF f assms(1,2,3)] by simp
  show "k \<le> j \<Longrightarrow>
      ws_cell_value (fst (procesar_hoja_v1 osp fs ws)) j c = ws_cell_value ws j c"
    unfolding procesar_hoja_v1_def procesar_hoja_v1_desde_fin [OF f assms(1,2,3)]
    by (simp add: celda_al_llegar_despues)
qed

lemma hoja_fila_corta_filas:
  "length hoja_fila_corta = 8"
  "hoja_fila_corta ! 5 = fila_con_codigo (PStr (lit ''A100''))"
  "hoja_fila_corta ! 6 = [PStr (lit ''nota''), PNone, PNone]"
  "hoja_fila_corta ! 7 = fila_con_codigo (PStr (lit ''B200''))"
  by (simp_all add: hoja_fila_corta_def)

lemma hoja_fila_corta_codigos:
  "ws_cell_value hoja_fila_corta 6 COL_CODIGO = PStr (lit ''A100'')"
  "ws_cell_value hoja_fila_corta 7 COL_CODIGO = PNone"
  "ws_cell_value hoja_fila_corta 8 COL_CODIGO = PStr (lit ''B200'')"
  "ws_cell_value hoja_fila_corta 8 6 = PNone"
  by (simp_all add: ws_cell_value_celda hoja_fila_corta_filas fila_con_codigo_simps)
     (simp add: celda_def COL_CODIGO_def)

lemma hoja_fila_corta_alcanzada: "alcanzada hoja_fila_corta FILA_INICIO 7"
proof -
  have a6: "alcanzada hoja_fila_corta FILA_INICIO 6"
    by (simp add: alcanzada_def FILA_INICIO_def)
  have f: "FILA_INICIO \<le> 6" by (simp add: FILA_INICIO_def)
  have s: "Suc 6 = 7" by simp
  show ?thesis
    using alcanzada_Suc [OF f, of hoja_fila_corta] a6 unfolding s
    by (simp add: hoja_fila_corta_codigos lit_no_vacio)
qed

lemma hoja_fila_corta_stream:
  "procesar_filas_stream ejemplo_osp ejemplo_fs (lit ''/datos'') 0 hoja_fila_corta [] [] =
     Inl IndexError"
proof -
  have i: "6 < length hoja_fila_corta" by (simp add: hoja_fila_corta_filas)
  have d: "FILA_INICIO_DATOS \<le> 0 + 6 + 1" by (simp add: FILA_INICIO_DATOS_def)
  have c: "length (hoja_fila_corta ! 6) < COL_CODIGO"
    by (simp add: hoja_fila_corta_filas COL_CODIGO_def)
  have p: "\<forall>j < 6. FILA_INICIO_DATOS \<le> 0 + j + 1 \<longrightarrow> COL_CODIGO \<le> length (hoja_fila_corta ! j)"
  proof (intro allI impI)
    fix j :: nat assume "j < 6" "FILA_INICIO_DATOS \<le> 0 + j + 1"
    then have "j = 5" by (simp add: FILA_INICIO_DATOS_def)
    then show "COL_CODIGO \<le> length (hoja_fila_corta ! j)"
      by (simp add: hoja_fila_corta_filas fila_con_codigo_simps COL_CODIGO_def)
  qed
  show ?thesis by (rule filas_stream_fila_corta [OF i d c p])
qed

text \<open>
  C2 at a failing input. The sheet EDU has eight rows; its row 7 has three cells, so an
  empty code. In streaming mode the loop raises \<open>IndexError\<close> at that row: the rows
  7 and 8 get no output row, the output workbook, with the rows appended so far, is
  never saved, and the process ends with exit code 1.
\<close>

theorem C2_short_row_drops_rows:
  "length hoja_fila_corta = 8 \<and>
   procesar_filas_stream ejemplo_osp ejemplo_fs (lit ''/datos'') 0 hoja_fila_corta [] [] =
     Inl IndexError \<and>
   guardado (main_v02 ejemplo_osp entorno_fila_corta) = None \<and>
   codigo_salida (main_v02 ejemplo_osp entorno_fila_corta) = 1"
proof -
  have "hoja_de [(lit ''EDU'', hoja_fila_corta)] (lit ''EDU'') = Some hoja_fila_corta"
    by (simp add: hoja_de_def)
  then have "procesar_hojas_stream ejemplo_osp ejemplo_fs (lit ''/datos'')
      [(lit ''EDU'', hoja_fila_corta)] HOJAS_OBJETIVO [] [] = Inl IndexError"
    by (simp add: HOJAS_OBJETIVO_def hoja_fila_corta_stream hoja_de_def)
  then show ?thesis
    by (simp add: main_v02_def entorno_fila_corta_def hoja_fila_corta_stream
        hoja_fila_corta_filas)
qed

text \<open>
  C3 at a failing input. Row 7 of the same sheet is the first row with an empty code
  cell. The in-place scripts end the traversal there: each prints one status line, for
  row 6, and the link script writes no formula into row 8. The streaming script does
  not append row 7 and go on to row 8: its loop body raises \<open>IndexError\<close> at row 7,
  and so does the loop when it arrives there, whatever it has appended before, and
  hence the loop over the whole sheet.
\<close>

theorem C3_short_blank_row_raises_in_streaming:
  "\<not> py_truthy (ws_cell_value hoja_fila_corta 7 COL_CODIGO) \<and>
   snd (procesar_hoja ejemplo_osp ejemplo_fs (lit ''/datos'') hoja_fila_corta) =
     [(6, lit ''A100'', Copiado)] \<and>
   snd (procesar_hoja_v1 ejemplo_osp ejemplo_fs hoja_fila_corta) =
     [(6, lit ''A100'', FormulaSinArchivo)] \<and>
   ws_cell_value (fst (procesar_hoja_v1 ejemplo_osp ejemplo_fs hoja_fila_corta)) 8 6 = PNone \<and>
   procesar_fila_stream ejemplo_osp ejemplo_fs (lit ''/datos'') 6 (hoja_fila_corta ! 6) =
     Inl IndexError \<and>
   (\<forall>ws_salida registro.
      procesar_filas_stream ejemplo_osp ejemplo_fs (lit ''/datos'') 6 (drop 6 hoja_fila_corta)
        ws_salida registro = Inl IndexError) \<and>
   procesar_filas_stream ejemplo_osp ejemplo_fs (lit ''/datos'') 0 hoja_fila_corta [] [] =
     Inl IndexError"
proof -
  have h1: "FILA_INICIO \<le> 7" by (simp add: FILA_INICIO_def)
  have h3: "\<not> py_truthy (ws_cell_value hoja_fila_corta 7 COL_CODIGO)"
    by (simp add: hoja_fila_corta_codigos)
  note t = codigo_vacio_termina_recorrido [OF h1 hoja_fila_corta_alcanzada h3]
  have u: "[FILA_INICIO..<7] = [6]" by (simp add: FILA_INICIO_def upt_rec)
  have c6: "celda (hoja_fila_corta ! 5) COL_CODIGO = PStr (lit ''A100'')"
    by (simp add: hoja_fila_corta_filas fila_con_codigo_simps)
  have a: "snd (procesar_hoja ejemplo_osp ejemplo_fs (lit ''/datos'') hoja_fila_corta) =
      [(6, lit ''A100'', Copiado)]"
    unfolding t(1) u
    by (simp add: c6 evento_fila_def ejemplo_strip ejemplo_join ejemplo_fs_eval)
  have nf: "\<not> isfile ejemplo_fs (lit ''/datos/C:'' @ [92] @ lit ''presupuestos/A100.xlsx'')"
    by (simp add: isfile_def ejemplo_fs_def lit_def)
  have b: "snd (procesar_hoja_v1 ejemplo_osp ejemplo_fs hoja_fila_corta) =
      [(6, lit ''A100'', FormulaSinArchivo)]"
    unfolding t(3) u
    using nf by (simp add: c6 evento_fila_v1_def ruta_absoluta_v1_def ejemplo_strip ejemplo_ruta_A100)
  have c: "ws_cell_value (fst (procesar_hoja_v1 ejemplo_osp ejemplo_fs hoja_fila_corta)) 8 6 = PNone"
    using t(4) [of 8 ejemplo_osp ejemplo_fs 6] by (simp add: hoja_fila_corta_codigos)
  have d: "procesar_fila_stream ejemplo_osp ejemplo_fs (lit ''/datos'') 6 (hoja_fila_corta ! 6) =
      Inl IndexError"
    by (simp add: hoja_fila_corta_filas procesar_fila_stream_def FILA_INICIO_DATOS_def COL_CODIGO_def)
  have dr: "drop 6 hoja_fila_corta = hoja_fila_corta ! 6 # drop 7 hoja_fila_corta"
    by (simp add: hoja_fila_corta_def)
  have e: "\<forall>ws_salida registro.
      procesar_filas_stream ejemplo_osp ejemplo_fs (lit ''/datos'') 6 (drop 6 hoja_fila_corta)
        ws_salida registro = Inl IndexError"
    unfolding dr by (simp add: d)
  show ?thesis using h3 a b c d e hoja_fila_corta_stream by blast
qed

end
